theory Spec2Isabelle
  imports Complex_Main "HOL-Library.Word"
begin

unbundle bit_operations_syntax

section \<open>Numbers and buffers\<close>

text \<open>
  The kernels of \<^verbatim>\<open>laghos_qupdate.cpp\<close> compute on C++ \<^verbatim>\<open>double\<close>. The embedding
  reads a \<^verbatim>\<open>double\<close> as a real number: every operation is the exact one, without rounding,
  overflow or NaN. A raw buffer (\<^verbatim>\<open>double*\<close>, \<^verbatim>\<open>Vector\<close>, \<^verbatim>\<open>DenseTensor\<close> memory) is a
  list of reals read with \<open>!\<close> and written with list update; a function that writes
  through a pointer takes the buffer and returns the new one. Indices are the source's
  \<^verbatim>\<open>int\<close> expressions on naturals. Small local arrays that the source declares without
  an initialiser are zero-filled lists of the declared size (the source writes every
  entry of them before it reads it).
\<close>

type_synonym buffer = "real list"

abbreviation fabs :: "real \<Rightarrow> real" where
  "fabs x \<equiv> \<bar>x\<bar>"

abbreviation fmin :: "real \<Rightarrow> real \<Rightarrow> real" where
  "fmin a b \<equiv> min a b"

abbreviation fmax :: "real \<Rightarrow> real \<Rightarrow> real" where
  "fmax a b \<equiv> max a b"

section \<open>Dense matrix kernels\<close>

text \<open>\<^verbatim>\<open>multABt(ah, aw, bh, A, B, C)\<close>: C = A * transpose B, column-major. The source advances the
  pointers \<^verbatim>\<open>A\<close> by \<^verbatim>\<open>ah\<close> and \<^verbatim>\<open>B\<close> by \<^verbatim>\<open>bh\<close> per \<^verbatim>\<open>k\<close>, and \<^verbatim>\<open>c\<close> by \<^verbatim>\<open>ah\<close> per \<^verbatim>\<open>j\<close>;
  the offsets are written out here.\<close>

definition multABt :: "nat \<Rightarrow> nat \<Rightarrow> nat \<Rightarrow> buffer \<Rightarrow> buffer \<Rightarrow> buffer \<Rightarrow> buffer" where
  "multABt ah aw bh A B C =
     (let C0 = fold (\<lambda>i C. C[i := 0]) [0..<ah * bh] C
      in fold (\<lambda>k C.
           fold (\<lambda>j C.
             (let bjk = B ! (k * bh + j)
              in fold (\<lambda>i C. C[j * ah + i := C ! (j * ah + i) + A ! (k * ah + i) * bjk])
                   [0..<ah] C))
             [0..<bh] C)
           [0..<aw] C0)"

text \<open>\<^verbatim>\<open>mult(ah, aw, bw, B, C, A)\<close>: A = B C, column-major.\<close>

definition mult :: "nat \<Rightarrow> nat \<Rightarrow> nat \<Rightarrow> buffer \<Rightarrow> buffer \<Rightarrow> buffer \<Rightarrow> buffer" where
  "mult ah aw bw B C A =
     (let A0 = fold (\<lambda>i A. A[i := 0]) [0..<ah * aw] A
      in fold (\<lambda>j A.
           fold (\<lambda>k A.
             fold (\<lambda>i A. A[i + j * ah := A ! (i + j * ah) + B ! (i + k * ah) * C ! (k + j * bw)])
               [0..<ah] A)
             [0..<bw] A)
           [0..<aw] A0)"

text \<open>\<^verbatim>\<open>multV(height, width, data, x, y)\<close>: y = data x.\<close>

definition multV :: "nat \<Rightarrow> nat \<Rightarrow> buffer \<Rightarrow> buffer \<Rightarrow> buffer \<Rightarrow> buffer" where
  "multV height width data x y =
     (if width = 0 then fold (\<lambda>row y. y[row := 0]) [0..<height] y
      else
        (let y1 = fold (\<lambda>row y. y[row := x ! 0 * data ! row]) [0..<height] y
         in fold (\<lambda>col y.
              (let x_col = x ! col
               in fold (\<lambda>row y. y[row := y ! row + x_col * data ! (col * height + row)])
                    [0..<height] y))
              [1..<width] y1))"

text \<open>\<^verbatim>\<open>add(height, width, c, A, D)\<close>: D += c A.\<close>

definition add :: "nat \<Rightarrow> nat \<Rightarrow> real \<Rightarrow> buffer \<Rightarrow> buffer \<Rightarrow> buffer" where
  "add height width c A D =
     fold (\<lambda>j D.
       fold (\<lambda>i D. D[i * width + j := D ! (i * width + j) + c * A ! (i * width + j)])
         [0..<height] D)
       [0..<width] D"

text \<open>\<^verbatim>\<open>norml2(size, data)\<close>. The loop state is the pair (scale, sum), the sum written ssum; the source's
  \<^verbatim>\<open>continue\<close> is the first branch of the inner conditional.\<close>

definition norml2_step :: "buffer \<Rightarrow> nat \<Rightarrow> real \<times> real \<Rightarrow> real \<times> real" where
  "norml2_step data i st =
     (case st of (scale, ssum) \<Rightarrow>
        if data ! i \<noteq> 0 then
          (let absdata = fabs (data ! i)
           in if scale \<le> absdata then
                (let sqr_arg = scale / absdata
                 in (absdata, 1 + ssum * (sqr_arg * sqr_arg)))
              else
                (let sqr_arg = absdata / scale
                 in (scale, ssum + sqr_arg * sqr_arg)))
        else (scale, ssum))"

definition norml2 :: "nat \<Rightarrow> buffer \<Rightarrow> real" where
  "norml2 sz data =
     (if 0 = sz then 0
      else if 1 = sz then \<bar>data ! 0\<bar>
      else (case fold (norml2_step data) [0..<sz] (0, 0) of
              (scale, ssum) \<Rightarrow> scale * sqrt ssum))"

definition det2D :: "buffer \<Rightarrow> real" where
  "det2D d = d ! 0 * d ! 3 - d ! 1 * d ! 2"

text \<open>\<^verbatim>\<open>calcInverse2D(n, a, i)\<close> writes the inverse of \<^verbatim>\<open>a\<close> into the buffer \<^verbatim>\<open>i\<close>.\<close>

definition calcInverse2D :: "nat \<Rightarrow> buffer \<Rightarrow> buffer \<Rightarrow> buffer" where
  "calcInverse2D n a i =
     (let d = det2D a;
          t = 1 / d;
          i = i[0 * n + 0 := a ! (1 * n + 1) * t];
          i = i[0 * n + 1 := - a ! (0 * n + 1) * t];
          i = i[1 * n + 0 := - a ! (1 * n + 0) * t];
          i = i[1 * n + 1 := a ! (0 * n + 0) * t]
      in i)"

definition symmetrize :: "nat \<Rightarrow> buffer \<Rightarrow> buffer" where
  "symmetrize n d =
     fold (\<lambda>i d.
       fold (\<lambda>j d.
         (let a = 0.5 * (d ! (i * n + j) + d ! (j * n + i))
          in (d[i * n + j := a])[j * n + i := a]))
         [0..<i] d)
       [0..<n] d"

definition cpysign :: "real \<Rightarrow> real \<Rightarrow> real" where
  "cpysign x y = (if (x < 0 \<and> y > 0) \<or> (x > 0 \<and> y < 0) then - x else x)"

text \<open>\<^verbatim>\<open>eigensystem2S(d12, d1, d2, c, s)\<close>: the in-out references \<^verbatim>\<open>d1\<close>, \<^verbatim>\<open>d2\<close> and the
  outputs \<^verbatim>\<open>c\<close>, \<^verbatim>\<open>s\<close> are returned as the tuple (d1, d2, c, s).\<close>

definition epsilon :: real where
  "epsilon = 1 / 10 ^ 16"

definition sqrt_1_eps :: real where
  "sqrt_1_eps = sqrt (1 / epsilon)"

definition eigensystem2S :: "real \<Rightarrow> real \<Rightarrow> real \<Rightarrow> real \<times> real \<times> real \<times> real" where
  "eigensystem2S d12 d1 d2 =
     (if d12 = 0 then (d1, d2, 1, 0)
      else
        (let zeta = (d2 - d1) / (2 * d12);
             t = (if fabs zeta < sqrt_1_eps
                  then cpysign (1 / (fabs zeta + sqrt (1 + zeta * zeta))) zeta
                  else cpysign (0.5 / fabs zeta) zeta);
             c = sqrt (1 / (1 + t * t));
             s = c * t;
             t = t * d12
         in (d1 - t, d2 + t, c, s)))"

text \<open>\<^verbatim>\<open>calcEigenvalues2D(n, d, lambda, vec)\<close> returns the buffers (lambda, vec).\<close>

definition calcEigenvalues2D :: "nat \<Rightarrow> buffer \<Rightarrow> buffer \<Rightarrow> buffer \<Rightarrow> buffer \<times> buffer" where
  "calcEigenvalues2D n d lambda vec =
     (case eigensystem2S (d ! 2) (d ! 0) (d ! 3) of
        (d0, d3, c, s) \<Rightarrow>
          if d0 \<le> d3
          then (lambda[0 := d0, 1 := d3], vec[0 := c, 1 := - s, 2 := s, 3 := c])
          else (lambda[0 := d3, 1 := d0], vec[0 := s, 1 := c, 2 := c, 3 := - s]))"

text \<open>The C library's \<^verbatim>\<open>frexp\<close> on a positive real: the mantissa in [1/2, 1) and the
  binary exponent. \<^verbatim>\<open>numeric_limits<double>::max_exponent\<close> is 1024 and \<^verbatim>\<open>radix\<close> is 2.\<close>

definition frexp :: "real \<Rightarrow> real \<times> int" where
  "frexp x =
     (if x = 0 then (0, 0)
      else (let e = \<lfloor>log 2 \<bar>x\<bar>\<rfloor> + 1 in (x / 2 powr (of_int e), e)))"

definition max_exponent :: int where
  "max_exponent = 1024"

definition radix :: real where
  "radix = 2"

definition getScalingFactor :: "real \<Rightarrow> real" where
  "getScalingFactor d_max =
     (if d_max > 0 then
        (case frexp d_max of
           (m, d_exp) \<Rightarrow>
             (let m = (if d_exp = max_exponent then m * radix else m)
              in d_max / m))
      else 1)"

definition calcSingularvalue2D :: "nat \<Rightarrow> nat \<Rightarrow> buffer \<Rightarrow> real" where
  "calcSingularvalue2D n i d =
     (let d0 = d ! 0; d1 = d ! 1; d2 = d ! 2; d3 = d ! 3;
          d_max = fabs d0;
          d_max = (if d_max < fabs d1 then fabs d1 else d_max);
          d_max = (if d_max < fabs d2 then fabs d2 else d_max);
          d_max = (if d_max < fabs d3 then fabs d3 else d_max);
          mult = getScalingFactor d_max;
          d0 = d0 / mult; d1 = d1 / mult; d2 = d2 / mult; d3 = d3 / mult;
          t = 0.5 * ((d0 + d2) * (d0 - d2) + (d1 - d3) * (d1 + d3));
          s = d0 * d2 + d1 * d3;
          s = sqrt (0.5 * (d0 * d0 + d1 * d1 + d2 * d2 + d3 * d3) + sqrt (t * t + s * s))
      in if s = 0 then 0
         else
           (let t = fabs (d0 * d3 - d1 * d2) / s
            in if t > s then (if i = 0 then t * mult else s * mult)
               else (if i = 0 then s * mult else t * mult)))"

text \<open>Smooth transition between 0 and 1 for x in [-eps, eps].\<close>

definition smooth_step_01 :: "real \<Rightarrow> real \<Rightarrow> real" where
  "smooth_step_01 x eps =
     (let y = (x + eps) / (2 * eps)
      in if y < 0 then 0
         else if y > 1 then 1
         else (3 - 2 * y) * y * y)"

section \<open>The per-zone physics update kernel\<close>

text \<open>The arguments of \<^verbatim>\<open>QUpdate2D<Q1D, dim = 2>\<close>, in the order of the source. The
  template parameter \<^verbatim>\<open>Q1D\<close> is a separate argument of the model; \<^verbatim>\<open>dim\<close> is the
  constant 2. The in-out buffers \<^verbatim>\<open>dt_est\<close> and \<^verbatim>\<open>stressJinvT\<close> are threaded as state.\<close>

definition dim :: nat where
  "dim = 2"

record qargs =
  a_nzones :: nat
  a_nqp :: nat
  a_nqp1D :: nat
  a_gamma :: real
  a_use_viscosity :: bool
  a_h0 :: real
  a_h1order :: real
  a_cfl :: real
  a_infinity :: real
  a_weights :: buffer
  a_Jacobians :: buffer
  a_rho0DetJ0w :: buffer
  a_e_quads :: buffer
  a_grad_v_ext :: buffer
  a_Jac0inv :: buffer

text \<open>The local variables of the loop body at one quadrature point, as they stand after
  the line that computes \<^verbatim>\<open>inv_dt\<close>. The locals of the viscosity block keep their
  zero fill when \<^verbatim>\<open>use_viscosity\<close> is off.\<close>

record qlocals =
  q_weight :: real
  q_J :: buffer
  q_detJ :: real
  q_Jinv :: buffer
  q_rho :: real
  q_e :: real
  q_p :: real
  q_sound_speed :: real
  q_sgrad_v :: buffer
  q_compr_dir :: buffer
  q_ph_dir :: buffer
  q_h :: real
  q_mu :: real
  q_visc_coeff :: real
  q_stress :: buffer
  q_inv_dt :: real

text \<open>The constant \<^verbatim>\<open>eps = 1e-12\<close> of the viscosity block.\<close>

definition visc_eps :: real where
  "visc_eps = 1 / 10 ^ 12"

definition QUpdate2D_locals :: "nat \<Rightarrow> qargs \<Rightarrow> nat \<Rightarrow> nat \<Rightarrow> nat \<Rightarrow> qlocals" where
  "QUpdate2D_locals Q1D a z qx qy =
     (let nqp = a_nqp a;
          q = qx + qy * Q1D;
          zq = z * nqp + q;
          weight = a_weights a ! q;
          inv_weight = 1 / weight;
          J_off = q + nqp * dim * dim * z;
          J = [a_Jacobians a ! J_off, a_Jacobians a ! (J_off + nqp),
               a_Jacobians a ! (J_off + 2 * nqp), a_Jacobians a ! (J_off + 3 * nqp)];
          detJ = det2D J;
          Jinv = calcInverse2D dim J (replicate (dim * dim) 0);
          rho = inv_weight * a_rho0DetJ0w a ! zq / detJ;
          e = fmax 0 (a_e_quads a ! zq);
          p = (a_gamma a - 1) * rho * e;
          sound_speed = sqrt (a_gamma a * (a_gamma a - 1) * e);
          stress = fold (\<lambda>k s. s[k := 0]) [0..<dim * dim] (replicate (dim * dim) 0);
          stress = fold (\<lambda>d s. s[d * dim + d := - p]) [0..<dim] stress;
          visc_coeff = 0;
          (sgrad_v, compr_dir, ph_dir, h, mu, visc_coeff, stress) =
            (if a_use_viscosity a then
               (let dV = [a_grad_v_ext a ! J_off, a_grad_v_ext a ! (J_off + nqp),
                          a_grad_v_ext a ! (J_off + 2 * nqp), a_grad_v_ext a ! (J_off + 3 * nqp)];
                    sgrad_v = mult dim dim dim dV Jinv (replicate (dim * dim) 0);
                    sgrad_v = symmetrize dim sgrad_v;
                    (eig_val_data, eig_vec_data) =
                      (if dim = 1 then ((replicate 3 0)[0 := sgrad_v ! 0], (replicate 9 0)[0 := 1])
                       else calcEigenvalues2D dim sgrad_v (replicate 3 0) (replicate 9 0));
                    compr_dir = fold (\<lambda>k c. c[k := eig_vec_data ! k]) [0..<dim] (replicate dim 0);
                    Jpi = mult dim dim dim J (drop (zq * dim * dim) (a_Jac0inv a))
                            (replicate (dim * dim) 0);
                    ph_dir = multV dim dim Jpi compr_dir (replicate dim 0);
                    h = a_h0 a * norml2 dim ph_dir / norml2 dim compr_dir;
                    mu = eig_val_data ! 0;
                    visc_coeff = 2 * rho * h * h * fabs mu;
                    eps = visc_eps;
                    visc_coeff = visc_coeff + 0.5 * rho * h * sound_speed *
                                   (1 - smooth_step_01 (mu - 2 * eps) eps);
                    stress = add dim dim visc_coeff sgrad_v stress
                in (sgrad_v, compr_dir, ph_dir, h, mu, visc_coeff, stress))
             else (replicate (dim * dim) 0, replicate dim 0, replicate dim 0, 0, 0,
                   visc_coeff, stress));
          sv = calcSingularvalue2D dim (dim - 1) J;
          h_min = sv / a_h1order a;
          inv_h_min = 1 / h_min;
          inv_rho_inv_h_min_sq = inv_h_min * inv_h_min / rho;
          inv_dt = sound_speed * inv_h_min + 2.5 * visc_coeff * inv_rho_inv_h_min_sq
      in \<lparr> q_weight = weight, q_J = J, q_detJ = detJ, q_Jinv = Jinv, q_rho = rho, q_e = e,
           q_p = p, q_sound_speed = sound_speed, q_sgrad_v = sgrad_v,
           q_compr_dir = compr_dir, q_ph_dir = ph_dir, q_h = h, q_mu = mu,
           q_visc_coeff = visc_coeff, q_stress = stress, q_inv_dt = inv_dt \<rparr>)"

text \<open>The body of the two \<^verbatim>\<open>MFEM_FOREACH_THREAD\<close> loops at the point (qx, qy) of zone z.
  The state is \<^verbatim>\<open>min_detJ\<close> (declared per zone, outside the point loops) and the two
  output buffers.\<close>

definition QUpdate2D_point ::
  "nat \<Rightarrow> qargs \<Rightarrow> nat \<Rightarrow> nat \<Rightarrow> nat \<Rightarrow> real \<times> buffer \<times> buffer \<Rightarrow> real \<times> buffer \<times> buffer" where
  "QUpdate2D_point Q1D a z qx qy st =
     (case st of (min_detJ, dt_est, stressJinvT) \<Rightarrow>
        (let L = QUpdate2D_locals Q1D a z qx qy;
             q = qx + qy * Q1D;
             zq = z * a_nqp a + q;
             min_detJ = fmin min_detJ (q_detJ L);
             dt_est =
               (if min_detJ < 0 then dt_est[zq := 0]
                else if q_inv_dt L > 0 then
                  (let cfl_inv_dt = a_cfl a / q_inv_dt L
                   in dt_est[zq := fmin (dt_est ! zq) cfl_inv_dt])
                else dt_est);
             stressJiT = multABt dim dim dim (q_stress L) (q_Jinv L) (replicate (dim * dim) 0);
             stressJiT = fold (\<lambda>k s. s[k := s ! k * (q_weight L * q_detJ L)])
                           [0..<dim * dim] stressJiT;
             stressJinvT =
               fold (\<lambda>vd S.
                 fold (\<lambda>gd S.
                   (let offset = zq + a_nqp a * a_nzones a * (gd + vd * dim)
                    in S[offset := stressJiT ! (vd + gd * dim)]))
                   [0..<dim] S)
                 [0..<dim] stressJinvT
         in (min_detJ, dt_est, stressJinvT)))"

text \<open>\<^verbatim>\<open>MFEM_FORALL_2D(z, nzones, Q1D, Q1D, 1, ...)\<close> with its two
  \<^verbatim>\<open>MFEM_FOREACH_THREAD\<close> loops, executed as the host does: zones in order, and within a
  zone qx outermost, qy innermost. \<^verbatim>\<open>min_detJ\<close> starts at \<^verbatim>\<open>infinity\<close> in every zone.\<close>

definition QUpdate2D_zone :: "nat \<Rightarrow> qargs \<Rightarrow> nat \<Rightarrow> buffer \<times> buffer \<Rightarrow> buffer \<times> buffer" where
  "QUpdate2D_zone Q1D a z bufs =
     (case bufs of (dt_est, stressJinvT) \<Rightarrow>
        (case fold (\<lambda>qx st. fold (\<lambda>qy st. QUpdate2D_point Q1D a z qx qy st) [0..<Q1D] st)
                [0..<Q1D] (a_infinity a, dt_est, stressJinvT) of
           (min_detJ, dt_est, stressJinvT) \<Rightarrow> (dt_est, stressJinvT)))"

definition QUpdate2D :: "nat \<Rightarrow> qargs \<Rightarrow> buffer \<times> buffer \<Rightarrow> buffer \<times> buffer" where
  "QUpdate2D Q1D a bufs = fold (QUpdate2D_zone Q1D a) [0..<a_nzones a] bufs"

section \<open>Basis evaluation kernels\<close>

text \<open>\<^verbatim>\<open>vecToQuad2D<VDIM, T_D1D, T_Q1D, T_NBZ>(NE, b_, x_, y_)\<close>, executed as the host
  does (one element after the other, thread loops as plain loops, thread id 0). The
  views are \<^verbatim>\<open>b(q,d) = b_[q + Q1D*d]\<close>, \<^verbatim>\<open>x(dx,dy,c,e) = x_[dx + D1D*(dy + D1D*(c + VDIM*e))]\<close>
  and \<^verbatim>\<open>y(qx,qy,c,e) = y_[qx + Q1D*(qy + Q1D*(c + VDIM*e))]\<close>; the local arrays
  \<^verbatim>\<open>B[Q1D][D1D]\<close>, \<^verbatim>\<open>DD[D1D][D1D]\<close> and \<^verbatim>\<open>DQ[D1D][Q1D]\<close> are flattened row by row.\<close>

definition vecToQuad2D ::
  "nat \<Rightarrow> nat \<Rightarrow> nat \<Rightarrow> nat \<Rightarrow> nat \<Rightarrow> buffer \<Rightarrow> buffer \<Rightarrow> buffer \<Rightarrow> buffer" where
  "vecToQuad2D VDIM T_D1D T_Q1D T_NBZ NE b x y =
     (let D1D = (if T_D1D \<noteq> 0 then T_D1D else 1);
          Q1D = (if T_Q1D \<noteq> 0 then T_Q1D else 1)
      in fold (\<lambda>e y.
           (let B = fold (\<lambda>d B. fold (\<lambda>q B. B[q * D1D + d := b ! (q + Q1D * d)]) [0..<Q1D] B)
                      [0..<D1D] (replicate (Q1D * D1D) 0)
            in fold (\<lambda>c y.
                 (let DD = fold (\<lambda>dy DD.
                             fold (\<lambda>dx DD.
                               DD[dy * D1D + dx := x ! (dx + D1D * (dy + D1D * (c + VDIM * e)))])
                               [0..<D1D] DD)
                             [0..<D1D] (replicate (D1D * D1D) 0);
                      DQ = fold (\<lambda>dy DQ.
                             fold (\<lambda>qx DQ.
                               (let dq = fold (\<lambda>dx dq. dq + B ! (qx * D1D + dx) * DD ! (dy * D1D + dx))
                                           [0..<D1D] 0
                                in DQ[dy * Q1D + qx := dq]))
                               [0..<Q1D] DQ)
                             [0..<D1D] (replicate (D1D * Q1D) 0)
                  in fold (\<lambda>qy y.
                       fold (\<lambda>qx y.
                         (let qq = fold (\<lambda>dy qq. qq + DQ ! (dy * Q1D + qx) * B ! (qy * D1D + dy))
                                     [0..<D1D] 0
                          in y[qx + Q1D * (qy + Q1D * (c + VDIM * e)) := qq]))
                         [0..<Q1D] y)
                       [0..<Q1D] y))
                 [0..<VDIM] y))
           [0..<NE] y)"

text \<open>\<^verbatim>\<open>qGradVector2D<T_D1D, T_Q1D, T_NBZ>(NE, b_, g_, x_, y_)\<close>, with
  \<^verbatim>\<open>y(qx,qy,c,d,e) = y_[qx + Q1D*(qy + Q1D*(c + 2*(d + 2*e)))]\<close> and the local arrays
  \<^verbatim>\<open>X[D1D][D1D]\<close>, \<^verbatim>\<open>DQ0[D1D][Q1D]\<close>, \<^verbatim>\<open>DQ1[D1D][Q1D]\<close> flattened row by row. The two
  accumulators \<^verbatim>\<open>u\<close>, \<^verbatim>\<open>v\<close> of an inner loop are a pair.\<close>

definition qGradVector2D ::
  "nat \<Rightarrow> nat \<Rightarrow> nat \<Rightarrow> nat \<Rightarrow> buffer \<Rightarrow> buffer \<Rightarrow> buffer \<Rightarrow> buffer \<Rightarrow> buffer" where
  "qGradVector2D T_D1D T_Q1D T_NBZ NE b g x y =
     (let D1D = (if T_D1D \<noteq> 0 then T_D1D else 1);
          Q1D = (if T_Q1D \<noteq> 0 then T_Q1D else 1)
      in fold (\<lambda>e y.
           (let BG = fold (\<lambda>d BG.
                       fold (\<lambda>q BG.
                         (case BG of (B, G) \<Rightarrow>
                            (B[q * D1D + d := b ! (q + Q1D * d)],
                             G[q * D1D + d := g ! (q + Q1D * d)])))
                         [0..<Q1D] BG)
                       [0..<D1D] (replicate (Q1D * D1D) 0, replicate (Q1D * D1D) 0);
                B = fst BG;
                G = snd BG
            in fold (\<lambda>c y.
                 (let X = fold (\<lambda>dx X.
                            fold (\<lambda>dy X.
                              X[dx * D1D + dy := x ! (dx + D1D * (dy + D1D * (c + 2 * e)))])
                              [0..<D1D] X)
                            [0..<D1D] (replicate (D1D * D1D) 0);
                      DQ = fold (\<lambda>dy DQ.
                             fold (\<lambda>qx DQ.
                               (case DQ of (DQ0, DQ1) \<Rightarrow>
                                  (case fold (\<lambda>dx uv.
                                           (case uv of (u, v) \<Rightarrow>
                                              (let input = X ! (dx * D1D + dy)
                                               in (u + B ! (qx * D1D + dx) * input,
                                                   v + G ! (qx * D1D + dx) * input))))
                                         [0..<D1D] (0, 0) of
                                     (u, v) \<Rightarrow> (DQ0[dy * Q1D + qx := u], DQ1[dy * Q1D + qx := v]))))
                               [0..<Q1D] DQ)
                             [0..<D1D] (replicate (D1D * Q1D) 0, replicate (D1D * Q1D) 0);
                      DQ0 = fst DQ;
                      DQ1 = snd DQ
                  in fold (\<lambda>qy y.
                       fold (\<lambda>qx y.
                         (case fold (\<lambda>dy uv.
                                  (case uv of (u, v) \<Rightarrow>
                                     (u + DQ1 ! (dy * Q1D + qx) * B ! (qy * D1D + dy),
                                      v + DQ0 ! (dy * Q1D + qx) * G ! (qy * D1D + dy))))
                                [0..<D1D] (0, 0) of
                            (u, v) \<Rightarrow>
                              (y[qx + Q1D * (qy + Q1D * (c + 2 * (0 + 2 * e))) := u])
                                [qx + Q1D * (qy + Q1D * (c + 2 * (1 + 2 * e))) := v]))
                         [0..<Q1D] y)
                       [0..<Q1D] y))
                 [0..<2] y))
           [0..<NE] y)"

section \<open>Dispatch\<close>

text \<open>Where the model stops following a call: at the call through a null function pointer
  that follows an unregistered key (\<^verbatim>\<open>call[id](...)\<close> after \<^verbatim>\<open>operator[]\<close> has
  default-inserted a null entry; the source has no abort statement there, and what the
  call does is undefined in C++: \<open>NullCall\<close> says that the call was made, and the state
  returned with it is the state at the call), at a failed \<^verbatim>\<open>MFEM_ASSERT\<close> (checked in debug
  builds only) and at a failed \<^verbatim>\<open>MFEM_VERIFY\<close>. What \<^verbatim>\<open>printf\<close> writes is kept as a
  list of events: the function's tag and the key printed with \<^verbatim>\<open>0x%X\<close>.\<close>

datatype fault = NullCall | AssertFailed string | VerifyFailed string

datatype event = Printf string "32 word"

text \<open>The static table \<^verbatim>\<open>call\<close> of \<^verbatim>\<open>Dof2QuadScalar\<close>: the key and the template
  arguments (VDIM, T_D1D, T_Q1D, T_NBZ) of the registered \<^verbatim>\<open>vecToQuad2D\<close>.\<close>

definition call_scalar :: "32 word \<Rightarrow> (nat \<times> nat \<times> nat \<times> nat) option" where
  "call_scalar = [0x124 \<mapsto> (1, 2, 4, 8), 0x136 \<mapsto> (1, 3, 6, 4), 0x148 \<mapsto> (1, 4, 8, 2)]"

text \<open>The static table \<^verbatim>\<open>call\<close> of \<^verbatim>\<open>Dof2QuadGrad\<close>: the template arguments
  (T_D1D, T_Q1D, T_NBZ) of the registered \<^verbatim>\<open>qGradVector2D\<close> (T_NBZ is its default 1).\<close>

definition call_grad :: "32 word \<Rightarrow> (nat \<times> nat \<times> nat) option" where
  "call_grad = [0x34 \<mapsto> (3, 4, 1), 0x46 \<mapsto> (4, 6, 1), 0x58 \<mapsto> (5, 8, 1)]"

text \<open>The static table \<^verbatim>\<open>qupdate2q\<close>: the template argument Q1D of the registered
  \<^verbatim>\<open>QUpdate2D\<close>.\<close>

definition qupdate2q :: "32 word \<Rightarrow> nat option" where
  "qupdate2q = [0x4 \<mapsto> 4, 0x6 \<mapsto> 6, 0x8 \<mapsto> 8]"

text \<open>\<^verbatim>\<open>Dof2QuadScalar\<close>. Of the finite element space, the maps and the integration rule
  it reads \<^verbatim>\<open>vdim\<close>, \<^verbatim>\<open>nzones\<close>, \<^verbatim>\<open>dofs1D\<close>, \<^verbatim>\<open>quad1D\<close> and \<^verbatim>\<open>maps->B\<close>, which are its
  arguments here; \<^verbatim>\<open>debug\<close> says whether \<^verbatim>\<open>MFEM_ASSERT\<close> is compiled in. The state is the
  printed output and the buffer \<^verbatim>\<open>d_out\<close>.\<close>

definition Dof2QuadScalar ::
  "bool \<Rightarrow> nat \<Rightarrow> nat \<Rightarrow> nat \<Rightarrow> nat \<Rightarrow> buffer \<Rightarrow> buffer \<Rightarrow> event list \<times> buffer
     \<Rightarrow> fault option \<times> event list \<times> buffer" where
  "Dof2QuadScalar debug vdim nzones dofs1D quad1D B d_in st =
     (case st of (out, d_out) \<Rightarrow>
        if debug \<and> vdim \<noteq> 1 then (Some (AssertFailed ''vdim!=1''), out, d_out)
        else
          (let id = push_bit 8 (of_nat vdim) OR push_bit 4 (of_nat dofs1D) OR of_nat quad1D
           in case call_scalar id of
                None \<Rightarrow> (Some NullCall, out @ [Printf ''Dof2QuadScalar'' id], d_out)
              | Some (VDIM, T_D1D, T_Q1D, T_NBZ) \<Rightarrow>
                  (None, out, vecToQuad2D VDIM T_D1D T_Q1D T_NBZ nzones B d_in d_out)))"

text \<open>\<^verbatim>\<open>Dof2QuadGrad\<close>. \<^verbatim>\<open>erestrict->Mult(d_in, d_h1_v_local_in)\<close> is the element
  restriction of the discretization layer, a function from the input vector to the
  new contents of \<^verbatim>\<open>d_h1_v_local_in\<close>. The state is the printed output and the buffers
  \<^verbatim>\<open>d_h1_v_local_in\<close> and \<^verbatim>\<open>d_out\<close>.\<close>

definition Dof2QuadGrad ::
  "bool \<Rightarrow> (buffer \<Rightarrow> buffer) \<Rightarrow> nat \<Rightarrow> nat \<Rightarrow> nat \<Rightarrow> nat \<Rightarrow> nat \<Rightarrow> buffer \<Rightarrow> buffer \<Rightarrow> buffer
     \<Rightarrow> event list \<times> buffer \<times> buffer \<Rightarrow> fault option \<times> event list \<times> buffer \<times> buffer" where
  "Dof2QuadGrad debug erestrict vdim mesh_dim nzones dofs1D quad1D B G d_in st =
     (case st of (out, d_h1_v_local_in, d_out) \<Rightarrow>
        if debug \<and> vdim \<noteq> 2 then (Some (AssertFailed ''vdim!=2''), out, d_h1_v_local_in, d_out)
        else if debug \<and> mesh_dim \<noteq> 2
        then (Some (AssertFailed ''dim!=2''), out, d_h1_v_local_in, d_out)
        else
          (let d_h1_v_local_in = erestrict d_in;
               id = push_bit 4 (of_nat dofs1D) OR of_nat quad1D
           in case call_grad id of
                None \<Rightarrow> (Some NullCall, out @ [Printf ''Dof2QuadGrad'' id], d_h1_v_local_in, d_out)
              | Some (T_D1D, T_Q1D, T_NBZ) \<Rightarrow>
                  (None, out, d_h1_v_local_in,
                   qGradVector2D T_D1D T_Q1D T_NBZ nzones B G d_h1_v_local_in d_out)))"

section \<open>The orchestrator\<close>

text \<open>The part of \<^verbatim>\<open>QuadratureData\<close> that the update reads and writes.\<close>

record QuadratureData =
  qd_dt_est :: real
  qd_stressJinvT :: buffer
  qd_h0 :: real
  qd_rho0DetJ0w :: buffer
  qd_Jac0inv :: buffer

text \<open>\<^verbatim>\<open>TimingData\<close>: the stopwatch \<^verbatim>\<open>sw_qdata\<close> is the list of its start and stop
  calls, \<^verbatim>\<open>quad_tstep\<close> is the counter.\<close>

datatype sw_event = Start | Stop

text \<open>The object \<^verbatim>\<open>QUpdate\<close>: its members, what it reads of its collaborators (the
  two finite element spaces, the integration rule, the basis tables \<^verbatim>\<open>maps->B\<close> and
  \<^verbatim>\<open>maps->G\<close>, the element restriction), the build flag of \<^verbatim>\<open>MFEM_ASSERT\<close> and the value of
  \<^verbatim>\<open>std::numeric_limits<double>::infinity()\<close>, its scratch vectors and its timer.\<close>

record QUpdate =
  m_dim :: nat
  m_nqp :: nat
  m_nzones :: nat
  m_use_viscosity :: bool
  m_cfl :: real
  m_gamma :: real
  H1_VSize :: nat
  H1_VDim :: nat
  H1_Order :: nat
  H1_mesh_Dimension :: nat
  L2_VSize :: nat
  L2_VDim :: nat
  L2_Order :: nat
  ir_quad1D :: nat
  ir_Weights :: buffer
  h1_maps_B :: buffer
  h1_maps_G :: buffer
  l2_maps_B :: buffer
  h1_ElemRestrict :: "buffer \<Rightarrow> buffer"
  mfem_debug :: bool
  numeric_infinity :: real
  d_l2_e_quads_data :: buffer
  d_h1_v_local_in :: buffer
  d_h1_grad_x_data :: buffer
  d_h1_grad_v_data :: buffer
  d_dt_est :: buffer
  sw_qdata :: "sw_event list"
  quad_tstep :: int

text \<open>Everything a call of \<^verbatim>\<open>UpdateQuadratureData2D\<close> can change: the flag and the
  quadrature data it gets by reference, the object, and the printed output.\<close>

record pstate =
  quad_data_is_current :: bool
  quad_data :: QuadratureData
  qupdate :: QUpdate
  stdout :: "event list"

text \<open>Modelled from the spec: \<^verbatim>\<open>Vector::Min\<close> of the array library is not in the source
  file; the spec has the per-point bound reduced "to a single scalar minimum over the
  whole dataset". The value for an empty vector is the infinity given.\<close>

definition Vector_Min :: "real \<Rightarrow> buffer \<Rightarrow> real" where
  "Vector_Min infty v =
     (case v of [] \<Rightarrow> infty
      | x # xs \<Rightarrow> fold (\<lambda>y m. if y < m then y else m) xs x)"

text \<open>The arguments that \<^verbatim>\<open>UpdateQuadratureData2D\<close> hands to the kernel.\<close>

definition kernel_args :: "nat \<Rightarrow> QUpdate \<Rightarrow> QuadratureData \<Rightarrow> qargs" where
  "kernel_args nqp1D u qd =
     \<lparr> a_nzones = m_nzones u, a_nqp = m_nqp u, a_nqp1D = nqp1D, a_gamma = m_gamma u,
       a_use_viscosity = m_use_viscosity u, a_h0 = qd_h0 qd,
       a_h1order = real (H1_Order u), a_cfl = m_cfl u, a_infinity = numeric_infinity u,
       a_weights = ir_Weights u, a_Jacobians = d_h1_grad_x_data u,
       a_rho0DetJ0w = qd_rho0DetJ0w qd, a_e_quads = d_l2_e_quads_data u,
       a_grad_v_ext = d_h1_grad_v_data u, a_Jac0inv = qd_Jac0inv qd \<rparr>"

text \<open>\<^verbatim>\<open>QUpdate::UpdateQuadratureData2D(S, quad_data_is_current, quad_data, tensors1D)\<close>.
  \<^verbatim>\<open>S\<close> is the state vector and \<^verbatim>\<open>nqp1D\<close> is \<^verbatim>\<open>tensors1D->LQshape1D.Width()\<close>. The result
  is where the model stops following the call, if the call does not complete, and the
  state then.\<close>

definition UpdateQuadratureData2D :: "buffer \<Rightarrow> nat \<Rightarrow> pstate \<Rightarrow> fault option \<times> pstate" where
  "UpdateQuadratureData2D S nqp1D s =
     (if quad_data_is_current s then (None, s)
      else
        (let u = qupdate s;
             u = u\<lparr>sw_qdata := sw_qdata u @ [Start]\<rparr>;
             H1_size = H1_VSize u;
             d_e = take (L2_VSize u) (drop (2 * H1_size) S)
         in case Dof2QuadScalar (mfem_debug u) (L2_VDim u) (m_nzones u) (L2_Order u + 1)
                   (ir_quad1D u) (l2_maps_B u) d_e (stdout s, d_l2_e_quads_data u) of
              (Some f, out, e_quads) \<Rightarrow>
                (Some f, s\<lparr>qupdate := u\<lparr>d_l2_e_quads_data := e_quads\<rparr>, stdout := out\<rparr>)
            | (None, out, e_quads) \<Rightarrow>
           (let u = u\<lparr>d_l2_e_quads_data := e_quads\<rparr>;
                d_x = take H1_size (drop 0 S)
            in case Dof2QuadGrad (mfem_debug u) (h1_ElemRestrict u) (H1_VDim u)
                      (H1_mesh_Dimension u) (m_nzones u) (H1_Order u + 1) (ir_quad1D u)
                      (h1_maps_B u) (h1_maps_G u) d_x
                      (out, d_h1_v_local_in u, d_h1_grad_x_data u) of
                 (Some f, out, v_local, grad_x) \<Rightarrow>
                   (Some f, s\<lparr>qupdate := u\<lparr>d_h1_v_local_in := v_local,
                                            d_h1_grad_x_data := grad_x\<rparr>, stdout := out\<rparr>)
               | (None, out, v_local, grad_x) \<Rightarrow>
              (let u = u\<lparr>d_h1_v_local_in := v_local, d_h1_grad_x_data := grad_x\<rparr>;
                   d_v = take H1_size (drop H1_size S)
               in case Dof2QuadGrad (mfem_debug u) (h1_ElemRestrict u) (H1_VDim u)
                         (H1_mesh_Dimension u) (m_nzones u) (H1_Order u + 1) (ir_quad1D u)
                         (h1_maps_B u) (h1_maps_G u) d_v
                         (out, d_h1_v_local_in u, d_h1_grad_v_data u) of
                    (Some f, out, v_local, grad_v) \<Rightarrow>
                      (Some f, s\<lparr>qupdate := u\<lparr>d_h1_v_local_in := v_local,
                                               d_h1_grad_v_data := grad_v\<rparr>, stdout := out\<rparr>)
                  | (None, out, v_local, grad_v) \<Rightarrow>
                 (let u = u\<lparr>d_h1_v_local_in := v_local, d_h1_grad_v_data := grad_v\<rparr>;
                      u = u\<lparr>d_dt_est := map (\<lambda>x. qd_dt_est (quad_data s)) (d_dt_est u)\<rparr>
                  in if m_dim u \<noteq> 2
                     then (Some (VerifyFailed ''Only UpdateQuadratureData with dim==2 is supported''),
                           s\<lparr>qupdate := u, stdout := out\<rparr>)
                     else
                       (let id = of_nat nqp1D
                        in case qupdate2q id of
                             None \<Rightarrow>
                               (Some NullCall,
                                s\<lparr>qupdate := u,
                                  stdout := out @ [Printf ''UpdateQuadratureData'' id]\<rparr>)
                           | Some Q1D \<Rightarrow>
                               (case QUpdate2D Q1D (kernel_args nqp1D u (quad_data s))
                                       (d_dt_est u, qd_stressJinvT (quad_data s)) of
                                  (dt_est, stressJinvT) \<Rightarrow>
                                    (let u = u\<lparr>d_dt_est := dt_est\<rparr>;
                                         qd = (quad_data s)\<lparr>qd_stressJinvT := stressJinvT\<rparr>;
                                         qd = qd\<lparr>qd_dt_est :=
                                                  Vector_Min (numeric_infinity u) (d_dt_est u)\<rparr>;
                                         u = u\<lparr>sw_qdata := sw_qdata u @ [Stop]\<rparr>;
                                         u = u\<lparr>quad_tstep := quad_tstep u + int (m_nzones u)\<rparr>
                                     in (None, \<lparr> quad_data_is_current = True, quad_data = qd,
                                                 qupdate = u, stdout = out \<rparr>)))))))))"

section \<open>Notions of the specification, and sample inputs\<close>

text \<open>For the spec's statement about the symmetric eigen-solver. The buffer \<^verbatim>\<open>vec\<close> holds
  the eigenvector matrix V column by column (the source takes the first eigenvector from
  \<^verbatim>\<open>vec[0], vec[1]\<close>): \<open>orthonormal2D\<close> says that the two columns are unit vectors
  orthogonal to each other, and \<open>reconstruct2D lambda vec\<close> is the product
  V * diag(lambda0, lambda1) * transpose V, column-major.\<close>

definition orthonormal2D :: "buffer \<Rightarrow> bool" where
  "orthonormal2D vec \<longleftrightarrow>
     vec ! 0 * vec ! 0 + vec ! 1 * vec ! 1 = 1 \<and>
     vec ! 2 * vec ! 2 + vec ! 3 * vec ! 3 = 1 \<and>
     vec ! 0 * vec ! 2 + vec ! 1 * vec ! 3 = 0"

definition reconstruct2D :: "buffer \<Rightarrow> buffer \<Rightarrow> buffer" where
  "reconstruct2D lambda vec =
     [lambda ! 0 * vec ! 0 * vec ! 0 + lambda ! 1 * vec ! 2 * vec ! 2,
      lambda ! 0 * vec ! 1 * vec ! 0 + lambda ! 1 * vec ! 3 * vec ! 2,
      lambda ! 0 * vec ! 0 * vec ! 1 + lambda ! 1 * vec ! 2 * vec ! 3,
      lambda ! 0 * vec ! 1 * vec ! 1 + lambda ! 1 * vec ! 3 * vec ! 3]"

text \<open>The tangent \<^verbatim>\<open>t\<close> that \<^verbatim>\<open>eigensystem2S\<close> computes from \<^verbatim>\<open>zeta\<close>, named for the proofs.\<close>

definition jacobi_t :: "real \<Rightarrow> real" where
  "jacobi_t zeta =
     (if fabs zeta < sqrt_1_eps
      then cpysign (1 / (fabs zeta + sqrt (1 + zeta * zeta))) zeta
      else cpysign (0.5 / fabs zeta) zeta)"

text \<open>The cubic of \<^verbatim>\<open>smooth_step_01\<close> between its two saturated ends.\<close>

definition hermite :: "real \<Rightarrow> real" where
  "hermite y = (3 - 2 * y) * y * y"

text \<open>A sample input of the kernel: one zone of 4 x 4 points whose Jacobian and initial
  inverse Jacobian are the identity at every point, with unit weights and unit
  reference mass, the velocity gradient diag(-1, 0), energy \<open>e\<close> at every point, and
  viscosity switched by \<open>visc\<close>.\<close>

definition unit_zone :: "bool \<Rightarrow> real \<Rightarrow> qargs" where
  "unit_zone visc e =
     \<lparr> a_nzones = 1, a_nqp = 16, a_nqp1D = 4, a_gamma = 2, a_use_viscosity = visc,
       a_h0 = 1, a_h1order = 1, a_cfl = 1 / 2, a_infinity = 10 ^ 30,
       a_weights = replicate 16 1,
       a_Jacobians = replicate 16 1 @ replicate 16 0 @ replicate 16 0 @ replicate 16 1,
       a_rho0DetJ0w = replicate 16 1,
       a_e_quads = replicate 16 e,
       a_grad_v_ext = replicate 16 (- 1) @ replicate 48 0,
       a_Jac0inv = concat (replicate 16 [1, 0, 0, 1]) \<rparr>"

text \<open>A second zone for the viscosity block: the Jacobian is diag(2, 1) at every point, the
  velocity gradient has the single entry -1, the energy is 2.\<close>

definition stretched_zone :: qargs where
  "stretched_zone =
     \<lparr> a_nzones = 1, a_nqp = 16, a_nqp1D = 4, a_gamma = 2, a_use_viscosity = True,
       a_h0 = 1, a_h1order = 1, a_cfl = 1 / 2, a_infinity = 10 ^ 30,
       a_weights = replicate 16 1,
       a_Jacobians = replicate 16 2 @ replicate 16 0 @ replicate 16 0 @ replicate 16 1,
       a_rho0DetJ0w = replicate 16 1,
       a_e_quads = replicate 16 2,
       a_grad_v_ext = replicate 16 (- 1) @ replicate 48 0,
       a_Jac0inv = concat (replicate 16 [1, 0, 0, 1]) \<rparr>"

text \<open>Modelled from the spec: the table \<^verbatim>\<open>maps->B\<close> that \<^verbatim>\<open>Dof2QuadScalar\<close> hands to the
  kernel belongs to the discretization layer and is not in the source file. The spec has
  it as the 1-D nodal-to-quadrature interpolation matrix (quadrature points by nodal
  points), \<^verbatim>\<open>b(q,d) = b[q + Q1D*d]\<close>, for which "interpolation of a constant reproduces
  the constant": at every quadrature point the basis values sum to one.\<close>

definition interpolates_constants :: "nat \<Rightarrow> nat \<Rightarrow> buffer \<Rightarrow> bool" where
  "interpolates_constants Q1D D1D b \<longleftrightarrow> (\<forall>q<Q1D. (\<Sum>d<D1D. b ! (q + Q1D * d)) = 1)"

text \<open>A sample run of the orchestrator: one zone, H1 order 2 (3 nodes per direction), L2
  order 1, 4 quadrature points per direction. The basis tables pick a single node
  (\<open>sample_B\<close> the node 0, \<open>sample_G\<close> the node 1), the element restriction is the
  identity, and the positions in \<open>sample_S\<close> are such that the Jacobian is the matrix
  with rows (0, 1) and (1, 0) at every point, of determinant -1: an inverted zone. The
  state has the flag \<open>cur\<close> and the global estimate \<open>g\<close>.\<close>

definition sample_B :: buffer where
  "sample_B = replicate 4 1 @ replicate 8 0"

definition sample_G :: buffer where
  "sample_G = replicate 4 0 @ replicate 4 1 @ replicate 4 0"

definition sample_S :: buffer where
  "sample_S = [0, 0, 0, 1, 0, 0, 0, 0, 0, 0, 1, 0, 0, 0, 0, 0, 0, 0] @ replicate 18 0 @ replicate 4 1"

definition sample_qupdate :: QUpdate where
  "sample_qupdate =
     \<lparr> m_dim = 2, m_nqp = 16, m_nzones = 1, m_use_viscosity = False, m_cfl = 1 / 2,
       m_gamma = 2, H1_VSize = 18, H1_VDim = 2, H1_Order = 2, H1_mesh_Dimension = 2,
       L2_VSize = 4, L2_VDim = 1, L2_Order = 1, ir_quad1D = 4, ir_Weights = replicate 16 1,
       h1_maps_B = sample_B, h1_maps_G = sample_G, l2_maps_B = replicate 4 1 @ replicate 4 0,
       h1_ElemRestrict = (\<lambda>v. v), mfem_debug = False, numeric_infinity = 10 ^ 30,
       d_l2_e_quads_data = replicate 16 0, d_h1_v_local_in = replicate 18 0,
       d_h1_grad_x_data = replicate 64 0, d_h1_grad_v_data = replicate 64 0,
       d_dt_est = replicate 16 0, sw_qdata = [], quad_tstep = 0 \<rparr>"

definition sample_state :: "bool \<Rightarrow> real \<Rightarrow> pstate" where
  "sample_state cur g =
     \<lparr> quad_data_is_current = cur,
       quad_data = \<lparr> qd_dt_est = g, qd_stressJinvT = replicate 64 0, qd_h0 = 1,
                     qd_rho0DetJ0w = replicate 16 1,
                     qd_Jac0inv = concat (replicate 16 [1, 0, 0, 1]) \<rparr>,
       qupdate = sample_qupdate, stdout = [] \<rparr>"

text \<open>Two invariants of the buffer \<^verbatim>\<open>d_dt_est\<close>, for the proofs: every slot is at most \<open>g\<close>,
  and every slot is non-negative.\<close>

definition dt_bounded :: "real \<Rightarrow> buffer \<Rightarrow> bool" where
  "dt_bounded g dt \<longleftrightarrow> (\<forall>x\<in>set dt. x \<le> g)"

definition dt_nonneg :: "buffer \<Rightarrow> bool" where
  "dt_nonneg dt \<longleftrightarrow> (\<forall>x\<in>set dt. 0 \<le> x)"

section \<open>Loops and small matrices\<close>

lemma length4: "length xs = 4 \<Longrightarrow> \<exists>a b c d. xs = [a, b, c, d]"
  by (auto simp: length_Suc_conv eval_nat_numeral)

lemma replicate_4: "replicate 4 x = [x, x, x, x]"
  by (simp add: eval_nat_numeral)

lemma replicate_2: "replicate 2 x = [x, x]"
  by (simp add: eval_nat_numeral)

lemma mult_2x2:
  "mult 2 2 2 [b0, b1, b2, b3] (c0 # c1 # c2 # c3 # cs) [a0, a1, a2, a3] =
     [b0 * c0 + b2 * c1, b1 * c0 + b3 * c1, b0 * c2 + b2 * c3, b1 * c2 + b3 * c3]"
  by (simp add: mult_def upt_rec)

lemma mult_2x2_nth:
  "mult 2 2 2 [b0, b1, b2, b3] C [a0, a1, a2, a3] =
     [b0 * C ! 0 + b2 * C ! 1, b1 * C ! 0 + b3 * C ! 1,
      b0 * C ! 2 + b2 * C ! 3, b1 * C ! 2 + b3 * C ! 3]"
  by (simp add: mult_def upt_rec eval_nat_numeral)

lemma symmetrize_2x2:
  "symmetrize 2 [d0, d1, d2, d3] = [d0, 0.5 * (d2 + d1), 0.5 * (d2 + d1), d3]"
  by (simp add: symmetrize_def upt_rec Let_def)

lemma add_2x2:
  "add 2 2 c [a0, a1, a2, a3] [d0, d1, d2, d3] =
     [d0 + c * a0, d1 + c * a1, d2 + c * a2, d3 + c * a3]"
  by (simp add: add_def upt_rec)

lemma multV_2x2:
  "multV 2 2 [m0, m1, m2, m3] [x0, x1] [y0, y1] = [x0 * m0 + x1 * m2, x0 * m1 + x1 * m3]"
  by (simp add: multV_def upt_rec Let_def)

lemma calcInverse2D_2x2:
  "calcInverse2D 2 [m0, m1, m2, m3] [i0, i1, i2, i3] =
     [m3 * (1 / (m0 * m3 - m1 * m2)), - m1 * (1 / (m0 * m3 - m1 * m2)),
      - m2 * (1 / (m0 * m3 - m1 * m2)), m0 * (1 / (m0 * m3 - m1 * m2))]"
  by (simp add: calcInverse2D_def det2D_def Let_def)

section \<open>The inverse of a 2 x 2 matrix\<close>

text \<open>C6. For every 2 x 2 matrix M, a buffer of four entries, whose determinant
  \<open>det2D M = M0 * M3 - M1 * M2\<close> is not zero: \<open>calcInverse2D\<close> writes the adjugate of M
  divided by the determinant, and the product of M and this inverse, computed by the
  source's \<open>mult\<close>, is the identity matrix. (In real arithmetic; the rounding of
  \<^verbatim>\<open>double\<close> is outside the model.)\<close>

theorem calcInverse2D_right_inverse:
  assumes "length M = 4" and "length i = 4" and "length A = 4" and "det2D M \<noteq> 0"
  shows "det2D M = M ! 0 * M ! 3 - M ! 1 * M ! 2 \<and>
         calcInverse2D 2 M i =
           [M ! 3 * (1 / det2D M), - M ! 1 * (1 / det2D M),
            - M ! 2 * (1 / det2D M), M ! 0 * (1 / det2D M)] \<and>
         mult 2 2 2 M (calcInverse2D 2 M i) A = [1, 0, 0, 1]"
proof -
  obtain m0 m1 m2 m3 where M: "M = [m0, m1, m2, m3]"
    using length4[OF assms(1)] by blast
  obtain i0 i1 i2 i3 where i: "i = [i0, i1, i2, i3]"
    using length4[OF assms(2)] by blast
  obtain a0 a1 a2 a3 where A: "A = [a0, a1, a2, a3]"
    using length4[OF assms(3)] by blast
  define D where "D = m0 * m3 - m1 * m2"
  have dM: "det2D M = D"
    by (simp add: M det2D_def D_def)
  have d: "D \<noteq> 0"
    using assms(4) dM by simp
  have inv: "calcInverse2D 2 M i = [m3 * (1 / D), - m1 * (1 / D), - m2 * (1 / D), m0 * (1 / D)]"
    unfolding M i calcInverse2D_2x2 D_def ..
  have g0: "m0 * (m3 * k) + m2 * (- m1 * k) = (m0 * m3 - m1 * m2) * k" for k
    by (simp add: algebra_simps)
  have g3: "m1 * (- m2 * k) + m3 * (m0 * k) = (m0 * m3 - m1 * m2) * k" for k
    by (simp add: algebra_simps)
  have e0: "m0 * (m3 * (1 / D)) + m2 * (- m1 * (1 / D)) = D * (1 / D)"
    unfolding D_def by (rule g0)
  have e1: "m1 * (m3 * (1 / D)) + m3 * (- m1 * (1 / D)) = 0"
    by (simp add: algebra_simps)
  have e2: "m0 * (- m2 * (1 / D)) + m2 * (m0 * (1 / D)) = 0"
    by (simp add: algebra_simps)
  have e3: "m1 * (- m2 * (1 / D)) + m3 * (m0 * (1 / D)) = D * (1 / D)"
    unfolding D_def by (rule g3)
  have one: "D * (1 / D) = 1"
    using d by simp
  have prod: "mult 2 2 2 M (calcInverse2D 2 M i) A = [1, 0, 0, 1]"
    unfolding inv unfolding M A mult_2x2 by (simp only: e0 e1 e2 e3 one)
  have "det2D M = M ! 0 * M ! 3 - M ! 1 * M ! 2"
    by (simp add: det2D_def)
  moreover have "calcInverse2D 2 M i =
      [M ! 3 * (1 / det2D M), - M ! 1 * (1 / det2D M), - M ! 2 * (1 / det2D M), M ! 0 * (1 / det2D M)]"
    unfolding inv dM by (simp add: M)
  ultimately show ?thesis
    using prod by blast
qed

theorem calcInverse2D_right_inverse_witness:
  "det2D [2, 1, 1, 1] = 1 \<and>
   calcInverse2D 2 [2, 1, 1, 1] [0, 0, 0, 0] = [1, - 1, - 1, 2] \<and>
   mult 2 2 2 [2, 1, 1, 1] [1, - 1, - 1, 2] [0, 0, 0, 0] = [1, 0, 0, 1]"
proof -
  have d: "det2D [2, 1, 1, 1] = 1"
    by (simp add: det2D_def)
  have h: "det2D [2, 1, 1, 1] \<noteq> 0"
    using d by simp
  note T = calcInverse2D_right_inverse[of "[2, 1, 1, 1]" "[0, 0, 0, 0]" "[0, 0, 0, 0]", OF _ _ _ h]
  have inv: "calcInverse2D 2 [2, 1, 1, 1] [0, 0, 0, 0] = [1, - 1, - 1, 2]"
    using T[THEN conjunct2, THEN conjunct1] by (simp add: d)
  have "mult 2 2 2 [2, 1, 1, 1] (calcInverse2D 2 [2, 1, 1, 1] [0, 0, 0, 0]) [0, 0, 0, 0] = [1, 0, 0, 1]"
    using T[THEN conjunct2, THEN conjunct2] by simp
  then show ?thesis
    using d inv by simp
qed

section \<open>The smooth step\<close>

lemma smooth_step_01_y:
  "smooth_step_01 x eps =
     (if (x + eps) / (2 * eps) < 0 then 0
      else if (x + eps) / (2 * eps) > 1 then 1
      else (3 - 2 * ((x + eps) / (2 * eps))) * ((x + eps) / (2 * eps)) * ((x + eps) / (2 * eps)))"
  by (simp only: smooth_step_01_def Let_def)

lemma smooth_step_01_low:
  assumes "0 < eps" and "x \<le> - eps"
  shows "smooth_step_01 x eps = 0"
proof -
  define y where "y = (x + eps) / (2 * eps)"
  have "y \<le> 0"
    using assms by (simp add: y_def field_simps)
  then consider "y < 0" | "y = 0"
    by linarith
  then have "(if y < 0 then 0 else if y > 1 then 1 else (3 - 2 * y) * y * y) = 0"
    by cases simp_all
  then show ?thesis
    unfolding smooth_step_01_y y_def .
qed

lemma smooth_step_01_high:
  assumes "0 < eps" and "eps \<le> x"
  shows "smooth_step_01 x eps = 1"
proof -
  define y where "y = (x + eps) / (2 * eps)"
  have "1 \<le> y"
    using assms by (simp add: y_def field_simps)
  then consider "1 < y" | "y = 1"
    by linarith
  then have "(if y < 0 then 0 else if y > 1 then 1 else (3 - 2 * y) * y * y) = 1"
    by cases simp_all
  then show ?thesis
    unfolding smooth_step_01_y y_def .
qed

lemma smooth_step_01_mid: "0 < eps \<Longrightarrow> smooth_step_01 0 eps = 1 / 2"
  by (simp add: smooth_step_01_def Let_def power2_eq_square)

lemma hermite_mono:
  assumes "0 \<le> a" and "a \<le> b" and "b \<le> 1"
  shows "hermite a \<le> hermite b"
proof -
  have "hermite b - hermite a = (b - a) * (3 * (a + b) - 2 * (a * a + a * b + b * b))"
    by (simp add: hermite_def algebra_simps)
  moreover have "0 \<le> 3 * (a + b) - 2 * (a * a + a * b + b * b)"
  proof -
    have "a * a \<le> a" "b * b \<le> b" "a * b \<le> b" "a * b \<le> a"
      using assms by (simp_all add: mult_left_le mult_left_le_one_le mult_right_le_one_le)
    then show ?thesis
      by (simp add: algebra_simps)
  qed
  ultimately have "0 \<le> hermite b - hermite a"
    using assms by simp
  then show ?thesis
    by simp
qed

lemma smooth_step_01_inside:
  assumes "0 < eps" and "- eps \<le> x" and "x \<le> eps"
  shows "smooth_step_01 x eps = hermite ((x + eps) / (2 * eps))"
proof -
  have "0 \<le> (x + eps) / (2 * eps)" "(x + eps) / (2 * eps) \<le> 1"
    using assms by (simp_all add: field_simps)
  then show ?thesis
    unfolding smooth_step_01_y hermite_def by simp
qed

lemma smooth_step_01_mono:
  assumes "0 < eps" and "- eps \<le> x" and "x \<le> y" and "y \<le> eps"
  shows "smooth_step_01 x eps \<le> smooth_step_01 y eps"
proof -
  have "0 \<le> (x + eps) / (2 * eps)" "(x + eps) / (2 * eps) \<le> (y + eps) / (2 * eps)"
    "(y + eps) / (2 * eps) \<le> 1"
    using assms by (simp_all add: field_simps)
  from hermite_mono[OF this] show ?thesis
    using assms by (simp add: smooth_step_01_inside)
qed

lemma smooth_step_01_continuous:
  assumes "0 < eps"
  shows "continuous_on {- eps..eps} (\<lambda>x. smooth_step_01 x eps)"
proof -
  have h: "continuous_on {- eps..eps} (\<lambda>x. hermite ((x + eps) / (2 * eps)))"
    unfolding hermite_def using assms by (intro continuous_intros) auto
  have "continuous_on {- eps..eps} (\<lambda>x. smooth_step_01 x eps) \<longleftrightarrow>
        continuous_on {- eps..eps} (\<lambda>x. hermite ((x + eps) / (2 * eps)))"
    using assms by (intro continuous_on_cong refl) (simp add: smooth_step_01_inside)
  with h show ?thesis
    by simp
qed

text \<open>C7. For every \<open>eps > 0\<close>: \<open>smooth_step_01 x eps\<close> is 0 for every \<open>x \<le> - eps\<close>, is 1
  for every \<open>x \<ge> eps\<close>, is exactly 1/2 at \<open>x = 0\<close>, and on the interval from \<open>- eps\<close> to
  \<open>eps\<close> it is monotonically non-decreasing and continuous.\<close>

theorem smooth_step_01_shape:
  assumes "0 < eps"
  shows "(\<forall>x. x \<le> - eps \<longrightarrow> smooth_step_01 x eps = 0) \<and>
         (\<forall>x. eps \<le> x \<longrightarrow> smooth_step_01 x eps = 1) \<and>
         smooth_step_01 0 eps = 1 / 2 \<and>
         (\<forall>x y. - eps \<le> x \<and> x \<le> y \<and> y \<le> eps
                \<longrightarrow> smooth_step_01 x eps \<le> smooth_step_01 y eps) \<and>
         continuous_on {- eps..eps} (\<lambda>x. smooth_step_01 x eps)"
  using assms smooth_step_01_low smooth_step_01_high smooth_step_01_mid
    smooth_step_01_mono smooth_step_01_continuous
  by blast

theorem smooth_step_01_shape_witness:
  "smooth_step_01 (- 2) 1 = 0 \<and> smooth_step_01 3 1 = 1 \<and> smooth_step_01 0 1 = 1 / 2 \<and>
   smooth_step_01 (- 1 / 2) 1 \<le> smooth_step_01 (1 / 2) 1 \<and>
   continuous_on {- 1..1} (\<lambda>x. smooth_step_01 x 1)"
  using smooth_step_01_shape[of 1] by simp

section \<open>The Euclidean norm\<close>

lemma norml2_zero_fold:
  "(\<forall>i<n. data ! i = 0) \<Longrightarrow> fold (norml2_step data) [0..<n] (0, 0) = (0, 0)"
  by (induction n) (simp_all add: norml2_step_def)

text \<open>C8. \<open>norml2\<close> returns exactly 0 for a vector of length 0 and for a vector of any
  length whose entries are all 0, and for the single-element vector [x] it returns the
  absolute value of x.\<close>

theorem norml2_zero_and_single:
  "norml2 0 data = 0 \<and>
   ((\<forall>i<n. data ! i = 0) \<longrightarrow> norml2 n data = 0) \<and>
   norml2 n (replicate n 0) = 0 \<and>
   norml2 1 [x] = \<bar>x\<bar>"
proof -
  have a: "norml2 n data = 0" if "\<forall>i<n. data ! i = 0"
    using norml2_zero_fold[OF that] that by (auto simp: norml2_def)
  have "norml2 n (replicate n 0) = 0"
    using norml2_zero_fold[of n "replicate n 0"] by (auto simp: norml2_def)
  then show ?thesis
    using a by (simp add: norml2_def)
qed

theorem norml2_zero_and_single_witness:
  "norml2 0 [] = 0 \<and> norml2 3 [0, 0, 0] = 0 \<and> norml2 3 (replicate 3 0) = 0 \<and>
   norml2 1 [- 5] = 5"
  using norml2_zero_and_single[of "[0, 0, 0]" 3 "- 5"] norml2_zero_and_single[of "[]" 3 0]
  by (simp add: nth_Cons' )

section \<open>The symmetric eigen-solver\<close>

lemma eigensystem2S_alt:
  "d12 \<noteq> 0 \<Longrightarrow> eigensystem2S d12 d1 d2 =
     (d1 - jacobi_t ((d2 - d1) / (2 * d12)) * d12, d2 + jacobi_t ((d2 - d1) / (2 * d12)) * d12,
      sqrt (1 / (1 + jacobi_t ((d2 - d1) / (2 * d12)) * jacobi_t ((d2 - d1) / (2 * d12)))),
      sqrt (1 / (1 + jacobi_t ((d2 - d1) / (2 * d12)) * jacobi_t ((d2 - d1) / (2 * d12)))) *
        jacobi_t ((d2 - d1) / (2 * d12)))"
  by (simp add: eigensystem2S_def Let_def jacobi_t_def)

lemma sqrt_1_eps_val: "sqrt_1_eps = 10 ^ 8"
proof -
  have "sqrt_1_eps = sqrt ((10 ^ 8) ^ 2)"
    by (simp add: sqrt_1_eps_def epsilon_def)
  also have "\<dots> = 10 ^ 8"
    by (simp only: real_sqrt_abs) simp
  finally show ?thesis .
qed

text \<open>In the branch for \<open>\<bar>zeta\<bar> < sqrt_1_eps\<close> the tangent is a root of
  \<open>t * t + 2 * zeta * t - 1\<close>: the rotation is the exact Jacobi rotation.\<close>

lemma jacobi_t_exact:
  assumes "fabs zeta < sqrt_1_eps"
  shows "jacobi_t zeta * jacobi_t zeta + 2 * zeta * jacobi_t zeta - 1 = 0"
proof -
  define r where "r = sqrt (1 + zeta * zeta)"
  have r2: "r * r = 1 + zeta * zeta"
    unfolding r_def by (simp add: add_nonneg_nonneg)
  have rpos: "fabs zeta < r"
    unfolding r_def
    by (metis abs_ge_zero add.commute less_add_one real_sqrt_abs2 real_sqrt_less_iff)
  define w where "w = fabs zeta + r"
  have wpos: "0 < w"
    using rpos by (simp add: w_def)
  have u: "0 < 1 / w"
    using wpos by simp
  show ?thesis
  proof (cases "zeta < 0")
    case True
    then have t: "jacobi_t zeta = - (1 / w)"
      using assms u by (simp add: jacobi_t_def cpysign_def w_def r_def)
    have w: "w = r - zeta"
      using True by (simp add: w_def)
    have "1 - 2 * zeta * w - w * w = 0"
      unfolding w using r2 by (simp add: algebra_simps)
    then have "(1 - 2 * zeta * w - w * w) / (w * w) = 0"
      by simp
    then show ?thesis
      unfolding t using wpos by (simp add: field_simps)
  next
    case False
    then have t: "jacobi_t zeta = 1 / w"
      using assms u by (simp add: jacobi_t_def cpysign_def w_def r_def)
    have w: "w = r + zeta"
      using False by (simp add: w_def)
    have "1 + 2 * zeta * w - w * w = 0"
      unfolding w using r2 by (simp add: algebra_simps)
    then have "(1 + 2 * zeta * w - w * w) / (w * w) = 0"
      by simp
    then show ?thesis
      unfolding t using wpos by (simp add: field_simps)
  qed
qed

lemma rotation_reconstructs:
  fixes a b d t c s :: real
  assumes cc: "c * c * (1 + t * t) = 1" and s: "s = c * t"
    and key: "b * (t * t) + (d - a) * t - b = 0"
  shows "(a - t * b) * c * c + (d + t * b) * s * s = a"
    and "(d + t * b) * c * s - (a - t * b) * s * c = b"
    and "(a - t * b) * s * s + (d + t * b) * c * c = d"
proof -
  have "(a - t * b) * c * c + (d + t * b) * s * s - a * (c * c * (1 + t * t))
        = c * c * t * (b * (t * t) + (d - a) * t - b)"
    unfolding s by (simp add: algebra_simps)
  then show "(a - t * b) * c * c + (d + t * b) * s * s = a"
    unfolding key cc by simp
  have "(d + t * b) * c * s - (a - t * b) * s * c - b * (c * c * (1 + t * t))
        = c * c * (b * (t * t) + (d - a) * t - b)"
    unfolding s by (simp add: algebra_simps)
  then show "(d + t * b) * c * s - (a - t * b) * s * c = b"
    unfolding key cc by simp
  have "(a - t * b) * s * s + (d + t * b) * c * c - d * (c * c * (1 + t * t))
        = - (c * c * t * (b * (t * t) + (d - a) * t - b))"
    unfolding s by (simp add: algebra_simps)
  then show "(a - t * b) * s * s + (d + t * b) * c * c = d"
    unfolding key cc by simp
qed

lemma cos_sq: "sqrt (1 / (1 + t * t)) * sqrt (1 / (1 + t * t)) * (1 + t * t) = 1"
proof -
  have p: "0 < 1 + t * t"
    by (metis add_pos_nonneg zero_le_square zero_less_one)
  then have "sqrt (1 / (1 + t * t)) * sqrt (1 / (1 + t * t)) = 1 / (1 + t * t)"
    by simp
  then show ?thesis
    using p by simp
qed

lemma eigensystem2S_cs:
  assumes e: "eigensystem2S b a d = (d0, d3, c, s)"
  shows "c * c + s * s = 1"
proof (cases "b = 0")
  case True
  with e show ?thesis
    by (simp add: eigensystem2S_def)
next
  case False
  define t where "t = jacobi_t ((d - a) / (2 * b))"
  from e False have c: "c = sqrt (1 / (1 + t * t))" and s: "s = c * t"
    by (auto simp: eigensystem2S_alt t_def)
  have "c * c * (1 + t * t) = 1"
    unfolding c by (rule cos_sq)
  then show ?thesis
    unfolding s by (simp add: algebra_simps)
qed

lemma eigensystem2S_exact:
  assumes nz: "b \<noteq> 0" and ex: "fabs ((d - a) / (2 * b)) < sqrt_1_eps"
  obtains t c s where "eigensystem2S b a d = (a - t * b, d + t * b, c, s)"
    and "(a - t * b) * c * c + (d + t * b) * s * s = a"
    and "(d + t * b) * c * s - (a - t * b) * s * c = b"
    and "(a - t * b) * s * s + (d + t * b) * c * c = d"
proof -
  define t where "t = jacobi_t ((d - a) / (2 * b))"
  define c where "c = sqrt (1 / (1 + t * t))"
  define s where "s = c * t"
  define zeta where "zeta = (d - a) / (2 * b)"
  have e: "eigensystem2S b a d = (a - t * b, d + t * b, c, s)"
    using nz by (simp add: eigensystem2S_alt t_def c_def s_def)
  have cc: "c * c * (1 + t * t) = 1"
    unfolding c_def by (rule cos_sq)
  have hz: "b * (2 * zeta) = d - a"
    using nz by (simp add: zeta_def)
  have "t * t + 2 * zeta * t - 1 = 0"
    unfolding t_def zeta_def using ex by (rule jacobi_t_exact)
  then have "b * (t * t + 2 * zeta * t - 1) = 0"
    by simp
  moreover have "b * (t * t + 2 * zeta * t - 1) = b * (t * t) + (b * (2 * zeta)) * t - b"
    by (simp add: algebra_simps)
  ultimately have key: "b * (t * t) + (d - a) * t - b = 0"
    unfolding hz by simp
  show thesis
    using that[OF e rotation_reconstructs[OF cc s_def key]] .
qed

lemma calcEigenvalues2D_nth:
  assumes "2 \<le> length lam0" and "4 \<le> length vec0"
    and "eigensystem2S (M ! 2) (M ! 0) (M ! 3) = (d0, d3, c, s)"
    and "calcEigenvalues2D n M lam0 vec0 = (lambda, vec)"
  shows "(d0 \<le> d3 \<and> lambda ! 0 = d0 \<and> lambda ! 1 = d3 \<and>
          vec ! 0 = c \<and> vec ! 1 = - s \<and> vec ! 2 = s \<and> vec ! 3 = c) \<or>
         (d3 \<le> d0 \<and> lambda ! 0 = d3 \<and> lambda ! 1 = d0 \<and>
          vec ! 0 = s \<and> vec ! 1 = c \<and> vec ! 2 = c \<and> vec ! 3 = - s)"
proof -
  have ne: "lam0 \<noteq> []" "vec0 \<noteq> []"
    using assms(1,2) by auto
  show ?thesis
  proof (cases "d0 \<le> d3")
    case True
    then have "lambda = lam0[0 := d0, 1 := d3]" "vec = vec0[0 := c, 1 := - s, 2 := s, 3 := c]"
      using assms(3,4) by (simp_all add: calcEigenvalues2D_def)
    then show ?thesis
      using True ne assms(1,2) by simp
  next
    case False
    then have "lambda = lam0[0 := d3, 1 := d0]" "vec = vec0[0 := s, 1 := c, 2 := c, 3 := - s]"
      using assms(3,4) by (simp_all add: calcEigenvalues2D_def)
    then show ?thesis
      using False ne assms(1,2) by simp
  qed
qed

lemma calcEigenvalues2D_ordered:
  assumes "2 \<le> length lam0" and "4 \<le> length vec0"
  shows "fst (calcEigenvalues2D n M lam0 vec0) ! 0 \<le> fst (calcEigenvalues2D n M lam0 vec0) ! 1"
proof -
  obtain d0 d3 c s where e: "eigensystem2S (M ! 2) (M ! 0) (M ! 3) = (d0, d3, c, s)"
    by (metis prod_cases4)
  have "calcEigenvalues2D n M lam0 vec0 =
      (fst (calcEigenvalues2D n M lam0 vec0), snd (calcEigenvalues2D n M lam0 vec0))"
    by simp
  from calcEigenvalues2D_nth[OF assms e this] show ?thesis
    by auto
qed

lemma calcEigenvalues2D_reconstruct:
  assumes len: "length M = 4" and sym: "M ! 1 = M ! 2"
    and l: "2 \<le> length lam0" and v: "4 \<le> length vec0"
    and r: "calcEigenvalues2D n M lam0 vec0 = (lambda, vec)"
    and ex: "M ! 2 = 0 \<or> fabs ((M ! 3 - M ! 0) / (2 * M ! 2)) < sqrt_1_eps"
  shows "reconstruct2D lambda vec = M"
proof -
  obtain a b' b d where M: "M = [a, b', b, d]"
    using length4[OF len] by blast
  have b': "b' = b"
    using sym by (simp add: M)
  have "\<exists>d0 d3 c s. eigensystem2S b a d = (d0, d3, c, s) \<and>
          d0 * c * c + d3 * s * s = a \<and> d3 * c * s - d0 * s * c = b \<and>
          d0 * s * s + d3 * c * c = d"
  proof (cases "b = 0")
    case True
    then show ?thesis
      by (simp add: eigensystem2S_def)
  next
    case False
    then have "fabs ((d - a) / (2 * b)) < sqrt_1_eps"
      using ex by (simp add: M)
    from eigensystem2S_exact[OF False this] show ?thesis
      by metis
  qed
  then obtain d0 d3 c s where e: "eigensystem2S (M ! 2) (M ! 0) (M ! 3) = (d0, d3, c, s)"
    and R1: "d0 * c * c + d3 * s * s = a" and R2: "d3 * c * s - d0 * s * c = b"
    and R3: "d0 * s * s + d3 * c * c = d"
    by (auto simp: M)
  from calcEigenvalues2D_nth[OF l v e r] show ?thesis
  proof
    assume h: "d0 \<le> d3 \<and> lambda ! 0 = d0 \<and> lambda ! 1 = d3 \<and>
          vec ! 0 = c \<and> vec ! 1 = - s \<and> vec ! 2 = s \<and> vec ! 3 = c"
    have "d0 * - s * c + d3 * c * s = b" "d0 * c * - s + d3 * s * c = b"
      "d0 * - s * - s + d3 * c * c = d"
      using R2 R3 by (simp_all add: algebra_simps)
    then show ?thesis
      using h R1 by (simp add: reconstruct2D_def M b')
  next
    assume h: "d3 \<le> d0 \<and> lambda ! 0 = d3 \<and> lambda ! 1 = d0 \<and>
          vec ! 0 = s \<and> vec ! 1 = c \<and> vec ! 2 = c \<and> vec ! 3 = - s"
    have "d3 * s * s + d0 * c * c = a" "d3 * c * s + d0 * - s * c = b"
      "d3 * s * c + d0 * c * - s = b" "d3 * c * c + d0 * - s * - s = d"
      using R1 R2 R3 by (simp_all add: algebra_simps)
    then show ?thesis
      using h by (simp add: reconstruct2D_def M b')
  qed
qed

text \<open>In the other branch the tangent is \<open>1 / (2 * zeta)\<close>, at most 5 / 10 ^ 9 in absolute
  value: the rotation is not exact, and the product differs from the matrix by at most
  \<open>\<bar>b\<bar> / (4 * 10 ^ 16)\<close> in each entry, where b is the off-diagonal entry.\<close>

lemma jacobi_t_asym:
  assumes "\<not> fabs zeta < sqrt_1_eps"
  shows "jacobi_t zeta * zeta = 1 / 2"
    and "jacobi_t zeta * jacobi_t zeta \<le> 1 / (4 * 10 ^ 16)"
proof -
  have big: "10 ^ 8 \<le> fabs zeta"
    using assms by (simp add: sqrt_1_eps_val)
  then have nz: "zeta \<noteq> 0"
    by auto
  have t: "jacobi_t zeta = 1 / (2 * zeta)"
    using assms nz by (simp add: jacobi_t_def cpysign_def)
  show "jacobi_t zeta * zeta = 1 / 2"
    unfolding t using nz by simp
  have "(10 ^ 8) * (10 ^ 8) \<le> fabs zeta * fabs zeta"
    using big by (intro mult_mono) simp_all
  then have z2: "10 ^ 16 \<le> zeta * zeta"
    by simp
  have "jacobi_t zeta * jacobi_t zeta = 1 / (4 * (zeta * zeta))"
    unfolding t by simp
  also have "\<dots> \<le> 1 / (4 * 10 ^ 16)"
    using z2 by (intro divide_left_mono) simp_all
  finally show "jacobi_t zeta * jacobi_t zeta \<le> 1 / (4 * 10 ^ 16)" .
qed

lemma rotation_residual:
  fixes a b d t c s :: real
  assumes cc: "c * c * (1 + t * t) = 1" and s: "s = c * t"
    and key: "\<bar>b * (t * t) + (d - a) * t - b\<bar> \<le> k"
  shows "\<bar>(a - t * b) * c * c + (d + t * b) * s * s - a\<bar> \<le> k"
    and "\<bar>(d + t * b) * c * s - (a - t * b) * s * c - b\<bar> \<le> k"
    and "\<bar>(a - t * b) * s * s + (d + t * b) * c * c - d\<bar> \<le> k"
proof -
  define r where "r = b * (t * t) + (d - a) * t - b"
  have p: "0 < 1 + t * t"
    by (metis add_pos_nonneg zero_le_square zero_less_one)
  have c2: "c * c = 1 / (1 + t * t)"
    using cc p by (simp add: field_simps)
  have c0: "0 \<le> c * c"
    by simp
  have c1: "c * c \<le> 1"
    unfolding c2 using p by simp
  have "0 \<le> (\<bar>t\<bar> - 1) * (\<bar>t\<bar> - 1)"
    by simp
  then have "\<bar>t\<bar> \<le> 1 + t * t"
    by (simp add: algebra_simps)
  then have ct: "c * c * \<bar>t\<bar> \<le> 1"
    unfolding c2 using p by simp
  have k: "\<bar>r\<bar> \<le> k"
    using key by (simp add: r_def)
  have m1: "c * c * \<bar>r\<bar> \<le> k"
  proof -
    have "c * c * \<bar>r\<bar> \<le> 1 * \<bar>r\<bar>"
      using c1 by (intro mult_right_mono) simp_all
    then show ?thesis
      using k by simp
  qed
  have m2: "c * c * \<bar>t\<bar> * \<bar>r\<bar> \<le> k"
  proof -
    have "c * c * \<bar>t\<bar> * \<bar>r\<bar> \<le> 1 * \<bar>r\<bar>"
      using ct by (intro mult_right_mono) simp_all
    then show ?thesis
      using k by simp
  qed
  have "(a - t * b) * c * c + (d + t * b) * s * s - a * (c * c * (1 + t * t)) = c * c * t * r"
    unfolding s r_def by (simp add: algebra_simps)
  then have "\<bar>(a - t * b) * c * c + (d + t * b) * s * s - a\<bar> = c * c * \<bar>t\<bar> * \<bar>r\<bar>"
    unfolding cc by (simp add: abs_mult)
  then show "\<bar>(a - t * b) * c * c + (d + t * b) * s * s - a\<bar> \<le> k"
    using m2 by simp
  have "(d + t * b) * c * s - (a - t * b) * s * c - b * (c * c * (1 + t * t)) = c * c * r"
    unfolding s r_def by (simp add: algebra_simps)
  then have "\<bar>(d + t * b) * c * s - (a - t * b) * s * c - b\<bar> = c * c * \<bar>r\<bar>"
    unfolding cc by (simp add: abs_mult)
  then show "\<bar>(d + t * b) * c * s - (a - t * b) * s * c - b\<bar> \<le> k"
    using m1 by simp
  have "(a - t * b) * s * s + (d + t * b) * c * c - d * (c * c * (1 + t * t)) = - (c * c * t * r)"
    unfolding s r_def by (simp add: algebra_simps)
  then have "\<bar>(a - t * b) * s * s + (d + t * b) * c * c - d\<bar> = c * c * \<bar>t\<bar> * \<bar>r\<bar>"
    unfolding cc by (simp add: abs_mult)
  then show "\<bar>(a - t * b) * s * s + (d + t * b) * c * c - d\<bar> \<le> k"
    using m2 by simp
qed

lemma eigensystem2S_close:
  obtains d0 d3 c s where "eigensystem2S b a d = (d0, d3, c, s)"
    and "\<bar>d0 * c * c + d3 * s * s - a\<bar> \<le> \<bar>b\<bar> / (4 * 10 ^ 16)"
    and "\<bar>d3 * c * s - d0 * s * c - b\<bar> \<le> \<bar>b\<bar> / (4 * 10 ^ 16)"
    and "\<bar>d0 * s * s + d3 * c * c - d\<bar> \<le> \<bar>b\<bar> / (4 * 10 ^ 16)"
proof (cases "b = 0")
  case True
  show thesis
    by (rule that[of a d 1 0]) (simp_all add: True eigensystem2S_def)
next
  case nz: False
  define zeta where "zeta = (d - a) / (2 * b)"
  define t where "t = jacobi_t zeta"
  define c where "c = sqrt (1 / (1 + t * t))"
  define s where "s = c * t"
  have e: "eigensystem2S b a d = (a - t * b, d + t * b, c, s)"
    using nz by (simp add: eigensystem2S_alt t_def c_def s_def zeta_def)
  have cc: "c * c * (1 + t * t) = 1"
    unfolding c_def by (rule cos_sq)
  have hz: "b * (2 * zeta) = d - a"
    using nz by (simp add: zeta_def)
  have r: "b * (t * t) + (d - a) * t - b = b * (t * t + 2 * zeta * t - 1)"
    unfolding hz[symmetric] by (simp add: algebra_simps)
  have key: "\<bar>b * (t * t) + (d - a) * t - b\<bar> \<le> \<bar>b\<bar> / (4 * 10 ^ 16)"
  proof (cases "fabs zeta < sqrt_1_eps")
    case True
    have "t * t + 2 * zeta * t - 1 = 0"
      unfolding t_def using True by (rule jacobi_t_exact)
    then show ?thesis
      unfolding r by simp
  next
    case False
    have h: "t * zeta = 1 / 2" and q: "t * t \<le> 1 / (4 * 10 ^ 16)"
      unfolding t_def using jacobi_t_asym[OF False] by simp_all
    have "t * t + 2 * zeta * t - 1 = t * t"
      using h by (simp add: algebra_simps)
    then have "\<bar>b * (t * t) + (d - a) * t - b\<bar> = \<bar>b\<bar> * (t * t)"
      unfolding r by (simp add: abs_mult)
    also have "\<dots> \<le> \<bar>b\<bar> * (1 / (4 * 10 ^ 16))"
      using q by (intro mult_left_mono) simp_all
    finally show ?thesis
      by simp
  qed
  show thesis
    using that[OF e rotation_residual[OF cc s_def key]] .
qed

lemma calcEigenvalues2D_close:
  assumes len: "length M = 4" and sym: "M ! 1 = M ! 2"
    and l: "2 \<le> length lam0" and v: "4 \<le> length vec0"
    and r: "calcEigenvalues2D n M lam0 vec0 = (lambda, vec)"
    and i: "i < 4"
  shows "\<bar>reconstruct2D lambda vec ! i - M ! i\<bar> \<le> \<bar>M ! 2\<bar> / (4 * 10 ^ 16)"
proof -
  obtain a b' b d where M: "M = [a, b', b, d]"
    using length4[OF len] by blast
  have b': "b' = b"
    using sym by (simp add: M)
  define k where "k = \<bar>b\<bar> / (4 * 10 ^ 16)"
  obtain d0 d3 c s where e': "eigensystem2S b a d = (d0, d3, c, s)"
    and R1: "\<bar>d0 * c * c + d3 * s * s - a\<bar> \<le> \<bar>b\<bar> / (4 * 10 ^ 16)"
    and R2: "\<bar>d3 * c * s - d0 * s * c - b\<bar> \<le> \<bar>b\<bar> / (4 * 10 ^ 16)"
    and R3: "\<bar>d0 * s * s + d3 * c * c - d\<bar> \<le> \<bar>b\<bar> / (4 * 10 ^ 16)"
    by (rule eigensystem2S_close[of b a d])
  have e: "eigensystem2S (M ! 2) (M ! 0) (M ! 3) = (d0, d3, c, s)"
    using e' by (simp add: M)
  note R1 = R1[folded k_def] and R2 = R2[folded k_def] and R3 = R3[folded k_def]
  have i4: "i = 0 \<or> i = 1 \<or> i = 2 \<or> i = 3"
    using i by auto
  have kk: "\<bar>M ! 2\<bar> / (4 * 10 ^ 16) = k"
    by (simp add: M k_def)
  from calcEigenvalues2D_nth[OF l v e r] show ?thesis
  proof
    assume h: "d0 \<le> d3 \<and> lambda ! 0 = d0 \<and> lambda ! 1 = d3 \<and>
          vec ! 0 = c \<and> vec ! 1 = - s \<and> vec ! 2 = s \<and> vec ! 3 = c"
    have e1: "d0 * - s * c + d3 * c * s = d3 * c * s - d0 * s * c"
      and e2: "d0 * c * - s + d3 * s * c = d3 * c * s - d0 * s * c"
      and e3: "d0 * - s * - s + d3 * c * c = d0 * s * s + d3 * c * c"
      by (simp_all add: algebra_simps)
    have rc: "reconstruct2D lambda vec =
        [d0 * c * c + d3 * s * s, d3 * c * s - d0 * s * c,
         d3 * c * s - d0 * s * c, d0 * s * s + d3 * c * c]"
      using h by (simp add: reconstruct2D_def e1 e2 e3)
    show ?thesis
      unfolding kk rc using i4 R1 R2 R3 by (auto simp: M b')
  next
    assume h: "d3 \<le> d0 \<and> lambda ! 0 = d3 \<and> lambda ! 1 = d0 \<and>
          vec ! 0 = s \<and> vec ! 1 = c \<and> vec ! 2 = c \<and> vec ! 3 = - s"
    have e0: "d3 * s * s + d0 * c * c = d0 * c * c + d3 * s * s"
      and e1: "d3 * c * s + d0 * - s * c = d3 * c * s - d0 * s * c"
      and e2: "d3 * s * c + d0 * c * - s = d3 * c * s - d0 * s * c"
      and e3: "d3 * c * c + d0 * - s * - s = d0 * s * s + d3 * c * c"
      by (simp_all add: algebra_simps)
    have rc: "reconstruct2D lambda vec =
        [d0 * c * c + d3 * s * s, d3 * c * s - d0 * s * c,
         d3 * c * s - d0 * s * c, d0 * s * s + d3 * c * c]"
      using h by (simp add: reconstruct2D_def e0 e1 e2 e3)
    show ?thesis
      unfolding kk rc using i4 R1 R2 R3 by (auto simp: M b')
  qed
qed

text \<open>C5. For every symmetric 2 x 2 matrix M (a buffer of four entries with
  \<open>M ! 1 = M ! 2\<close>), \<open>calcEigenvalues2D\<close> returns eigenvalues \<open>lambda0 \<le> lambda1\<close> and a
  matrix V with orthonormal columns such that V * diag(lambda0, lambda1) * transpose V is
  M up to the tolerance of the solver: each entry of the product is within
  \<open>\<bar>M2\<bar> / (4 * 10 ^ 16)\<close> of the entry of M, where M2 is the off-diagonal entry (the
  tangent \<open>0.5 / \<bar>zeta\<bar>\<close> that the source takes for \<open>zeta\<close> above \<open>sqrt_1_eps\<close> is off by
  that much). When the off-diagonal entry is exactly zero the rotation is the identity:
  \<open>eigensystem2S\<close> leaves the diagonal as it is and returns c = 1, s = 0, and the product
  is M itself.\<close>

theorem calcEigenvalues2D_decomposition:
  assumes "length M = 4" and "M ! 1 = M ! 2"
    and "2 \<le> length lam0" and "4 \<le> length vec0"
    and "calcEigenvalues2D 2 M lam0 vec0 = (lambda, vec)"
  shows "lambda ! 0 \<le> lambda ! 1 \<and> orthonormal2D vec \<and>
         (\<forall>i<4. \<bar>reconstruct2D lambda vec ! i - M ! i\<bar> \<le> \<bar>M ! 2\<bar> / (4 * 10 ^ 16)) \<and>
         (M ! 2 = 0 \<longrightarrow> eigensystem2S (M ! 2) (M ! 0) (M ! 3) = (M ! 0, M ! 3, 1, 0) \<and>
                        reconstruct2D lambda vec = M)"
proof -
  obtain d0 d3 c s where e: "eigensystem2S (M ! 2) (M ! 0) (M ! 3) = (d0, d3, c, s)"
    by (metis prod_cases4)
  have cs: "c * c + s * s = 1"
    by (rule eigensystem2S_cs[OF e])
  then have sc: "s * s + c * c = 1"
    by simp
  note N = calcEigenvalues2D_nth[OF assms(3) assms(4) e assms(5)]
  have ord: "lambda ! 0 \<le> lambda ! 1"
    using N by auto
  have orth: "orthonormal2D vec"
    using N cs sc by (auto simp: orthonormal2D_def)
  have rec: "reconstruct2D lambda vec = M" if "M ! 2 = 0"
    using calcEigenvalues2D_reconstruct[OF assms] that by blast
  have cl: "\<forall>i<4. \<bar>reconstruct2D lambda vec ! i - M ! i\<bar> \<le> \<bar>M ! 2\<bar> / (4 * 10 ^ 16)"
    using calcEigenvalues2D_close[OF assms] by blast
  have idn: "eigensystem2S (M ! 2) (M ! 0) (M ! 3) = (M ! 0, M ! 3, 1, 0)" if "M ! 2 = 0"
    using that by (simp add: eigensystem2S_def)
  show ?thesis
    using ord orth rec cl idn by blast
qed

theorem calcEigenvalues2D_decomposition_witness:
  "calcEigenvalues2D 2 [2, 0, 0, 1] [0, 0, 0] [0, 0, 0, 0, 0, 0, 0, 0, 0] =
     ([1, 2, 0], [0, 1, 1, 0, 0, 0, 0, 0, 0]) \<and>
   orthonormal2D [0, 1, 1, 0, 0, 0, 0, 0, 0] \<and>
   reconstruct2D [1, 2, 0] [0, 1, 1, 0, 0, 0, 0, 0, 0] = [2, 0, 0, 1] \<and>
   eigensystem2S 0 2 1 = (2, 1, 1, 0)"
proof -
  have r: "calcEigenvalues2D 2 [2, 0, 0, 1] [0, 0, 0] [0, 0, 0, 0, 0, 0, 0, 0, 0] =
      ([1, 2, 0], [0, 1, 1, 0, 0, 0, 0, 0, 0])"
    by (simp add: calcEigenvalues2D_def eigensystem2S_def)
  show ?thesis
    using calcEigenvalues2D_decomposition[OF _ _ _ _ r] r by simp
qed

section \<open>The physics update at one quadrature point\<close>

lemma fold_length:
  "(\<And>i xs. length (f i xs) = length xs) \<Longrightarrow> length (fold f ns xs) = length xs"
  by (induction ns arbitrary: xs) simp_all

lemma length_mult: "length (mult ah aw bw B C A) = length A"
  by (simp add: mult_def Let_def fold_length)

lemma length_symmetrize: "length (symmetrize n d) = length d"
  by (simp add: symmetrize_def Let_def fold_length)

lemma stress_init:
  "fold (\<lambda>d s. s[d * dim + d := - p]) [0..<dim]
     (fold (\<lambda>k s. s[k := 0]) [0..<dim * dim] (replicate (dim * dim) 0)) = [- p, 0, 0, - p]"
  by (simp add: dim_def upt_rec replicate_4)

lemma locals_visc_coeff:
  assumes "a_use_viscosity a" and "L = QUpdate2D_locals Q1D a z qx qy"
  shows "q_visc_coeff L =
           2 * q_rho L * q_h L * q_h L * fabs (q_mu L) +
           0.5 * q_rho L * q_h L * q_sound_speed L *
             (1 - smooth_step_01 (q_mu L - 2 * visc_eps) visc_eps)"
  using assms by (simp add: QUpdate2D_locals_def Let_def split_beta)

lemma locals_stress:
  assumes "a_use_viscosity a" and "L = QUpdate2D_locals Q1D a z qx qy"
  shows "q_stress L = add dim dim (q_visc_coeff L) (q_sgrad_v L) [- q_p L, 0, 0, - q_p L]"
  using assms by (simp add: QUpdate2D_locals_def Let_def split_beta stress_init)

lemma locals_mu:
  assumes "a_use_viscosity a" and "L = QUpdate2D_locals Q1D a z qx qy"
  shows "q_mu L = fst (calcEigenvalues2D dim (q_sgrad_v L) (replicate 3 0) (replicate 9 0)) ! 0"
  using assms by (simp add: QUpdate2D_locals_def Let_def split_beta dim_def)


lemma QUpdate2D_point_unfold:
  "QUpdate2D_point Q1D a z qx qy (min_detJ, dt_est, stressJinvT) = (m', d', S') \<Longrightarrow>
     m' = fmin min_detJ (q_detJ (QUpdate2D_locals Q1D a z qx qy)) \<and>
     d' = (if m' < 0 then dt_est[z * a_nqp a + (qx + qy * Q1D) := 0]
           else if q_inv_dt (QUpdate2D_locals Q1D a z qx qy) > 0
           then dt_est[z * a_nqp a + (qx + qy * Q1D) :=
                   fmin (dt_est ! (z * a_nqp a + (qx + qy * Q1D)))
                        (a_cfl a / q_inv_dt (QUpdate2D_locals Q1D a z qx qy))]
           else dt_est)"
  by (auto simp: QUpdate2D_point_def Let_def)

lemma unit_zone_J:
  "a_Jacobians (unit_zone v e) ! 0 = 1" "a_Jacobians (unit_zone v e) ! 16 = 0"
  "a_Jacobians (unit_zone v e) ! 32 = 0" "a_Jacobians (unit_zone v e) ! 48 = 1"
  by (simp_all add: unit_zone_def nth_append)


lemma unit_zone_Jac0inv:
  "a_Jac0inv (unit_zone v e) = [1, 0, 0, 1] @ concat (replicate 15 [1, 0, 0, 1])"
  by (simp add: unit_zone_def eval_nat_numeral)

lemma unit_zone_fields:
  "a_nqp (unit_zone v e) = 16" "a_weights (unit_zone v e) ! 0 = 1"
  "a_rho0DetJ0w (unit_zone v e) ! 0 = 1" "a_e_quads (unit_zone v e) ! 0 = e"
  "a_gamma (unit_zone v e) = 2" "a_use_viscosity (unit_zone v e) = v"
  "a_h0 (unit_zone v e) = 1" "a_h1order (unit_zone v e) = 1" "a_cfl (unit_zone v e) = 1 / 2"
  by (simp_all add: unit_zone_def)

lemma unit_zone_locals_novisc:
  "q_detJ (QUpdate2D_locals 4 (unit_zone False 0) 0 0 0) = 1"
  "q_inv_dt (QUpdate2D_locals 4 (unit_zone False 0) 0 0 0) = 0"
  by (simp_all add: QUpdate2D_locals_def Let_def split_beta dim_def det2D_def
      unit_zone_fields unit_zone_J)

text \<open>C1, as amended. At every quadrature point of a zone, with \<open>zq\<close> the point's slot in
  \<open>dt_est\<close> and \<open>L\<close> the local variables of the point: the tracked minimum becomes the
  minimum of its value so far and the point's determinant; if the tracked minimum is
  strictly negative the slot is set to exactly 0 (so it is 0 whenever the point's own
  determinant is negative); otherwise, when \<open>inv_dt > 0\<close> the slot becomes the minimum of
  its previous value and \<open>cfl / inv_dt\<close>, and when \<open>inv_dt \<le> 0\<close> it keeps its value. No
  other slot of \<open>dt_est\<close> changes.\<close>

theorem QUpdate2D_point_dt_est:
  assumes "zq = z * a_nqp a + (qx + qy * Q1D)" and "zq < length dt_est"
    and "L = QUpdate2D_locals Q1D a z qx qy"
    and "R = QUpdate2D_point Q1D a z qx qy (min_detJ, dt_est, stressJinvT)"
  shows "fst R = fmin min_detJ (q_detJ L) \<and>
         fst (snd R) ! zq =
           (if fst R < 0 then 0
            else if q_inv_dt L > 0 then fmin (dt_est ! zq) (a_cfl a / q_inv_dt L)
            else dt_est ! zq) \<and>
         (q_detJ L < 0 \<longrightarrow> fst (snd R) ! zq = 0) \<and>
         (\<forall>i. i \<noteq> zq \<longrightarrow> fst (snd R) ! i = dt_est ! i) \<and>
         length (fst (snd R)) = length dt_est"
proof -
  have "QUpdate2D_point Q1D a z qx qy (min_detJ, dt_est, stressJinvT) =
          (fst R, fst (snd R), snd (snd R))"
    by (simp add: assms(4))
  from QUpdate2D_point_unfold[OF this] show ?thesis
    using assms(1-3) by (auto simp: min_def)
qed

theorem QUpdate2D_point_dt_est_witness:
  "fst (QUpdate2D_point 4 (unit_zone False 0) 0 0 0 (- 1, replicate 16 1, replicate 64 0)) = - 1 \<and>
   fst (snd (QUpdate2D_point 4 (unit_zone False 0) 0 0 0 (- 1, replicate 16 1, replicate 64 0))) ! 0
     = 0 \<and>
   fst (snd (QUpdate2D_point 4 (unit_zone False 0) 0 0 0 (- 1, replicate 16 1, replicate 64 0))) ! 1
     = 1"
  using QUpdate2D_point_dt_est[of 0 0 "unit_zone False 0" 0 0 4 "replicate 16 1" _ _
      "- 1" "replicate 64 0", OF _ _ refl refl]
  by (simp add: unit_zone_locals_novisc)

text \<open>The claim as stated fails where the tracked minimum is exactly 0. On the sample zone
  without viscosity and with zero energy, at a point whose Jacobian is the identity,
  entered with tracked minimum 0 (an earlier point of the zone had determinant 0): the
  tracked minimum stays 0, which is non-positive, and the slot keeps its value 1.\<close>

theorem QUpdate2D_point_dt_est_counterexample:
  "fst (QUpdate2D_point 4 (unit_zone False 0) 0 0 0 (0, replicate 16 1, replicate 64 0)) = 0 \<and>
   fst (snd (QUpdate2D_point 4 (unit_zone False 0) 0 0 0 (0, replicate 16 1, replicate 64 0))) ! 0
     = 1"
  by (simp add: QUpdate2D_point_def Let_def unit_zone_locals_novisc)

section \<open>The viscosity coefficient\<close>

lemma smooth_step_01_below:
  assumes "mu < visc_eps"
  shows "smooth_step_01 (mu - 2 * visc_eps) visc_eps = 0"
proof -
  have "0 < visc_eps"
    by (simp add: visc_eps_def)
  moreover have "mu - 2 * visc_eps \<le> - visc_eps"
    using assms by simp
  ultimately show ?thesis
    by (rule smooth_step_01_low)
qed

lemma norml2_2: "norml2 2 [x, y] = sqrt (x * x + y * y)"
proof -
  have ax: "fabs x = sqrt (x * x)" and ay: "fabs y = sqrt (y * y)"
    by simp_all
  have both: "fabs v * sqrt (1 + (fabs u / fabs v) * (fabs u / fabs v)) = sqrt (u * u + v * v)"
    if "v \<noteq> 0" for u v :: real
  proof -
    have "fabs v * sqrt (1 + (fabs u / fabs v) * (fabs u / fabs v))
        = sqrt (v * v) * sqrt (1 + (u * u) / (v * v))"
      by simp
    also have "\<dots> = sqrt (v * v * (1 + (u * u) / (v * v)))"
      by (simp only: real_sqrt_mult)
    also have "v * v * (1 + (u * u) / (v * v)) = u * u + v * v"
      using that by (simp add: field_simps)
    finally show ?thesis .
  qed
  show ?thesis
  proof (cases "x = 0")
    case True
    then show ?thesis
      by (simp add: norml2_def norml2_step_def upt_rec)
  next
    case x: False
    show ?thesis
    proof (cases "y = 0")
      case True
      then show ?thesis
        using x by (simp add: norml2_def norml2_step_def upt_rec)
    next
      case y: False
      show ?thesis
      proof (cases "fabs x \<le> fabs y")
        case True
        then have "norml2 2 [x, y] = fabs y * sqrt (1 + (fabs x / fabs y) * (fabs x / fabs y))"
          using x y by (simp add: norml2_def norml2_step_def upt_rec Let_def)
        then show ?thesis
          unfolding both[OF y] .
      next
        case False
        then have "norml2 2 [x, y] = fabs x * sqrt (1 + (fabs y / fabs x) * (fabs y / fabs x))"
          using x y by (simp add: norml2_def norml2_step_def upt_rec Let_def)
        then show ?thesis
          unfolding both[OF x] by (simp add: add.commute)
      qed
    qed
  qed
qed

lemma eigenpair_close:
  assumes o: "orthonormal2D vec"
    and c: "\<forall>i<4. \<bar>reconstruct2D lambda vec ! i - S ! i\<bar> \<le> k"
  shows "\<bar>S ! 0 * vec ! 0 + S ! 2 * vec ! 1 - lambda ! 0 * vec ! 0\<bar> \<le> 2 * k"
    and "\<bar>S ! 1 * vec ! 0 + S ! 3 * vec ! 1 - lambda ! 0 * vec ! 1\<bar> \<le> 2 * k"
proof -
  define v0 v1 v2 v3 where v: "v0 = vec ! 0" "v1 = vec ! 1" "v2 = vec ! 2" "v3 = vec ! 3"
  define l0 l1 where l: "l0 = lambda ! 0" "l1 = lambda ! 1"
  have n0: "v0 * v0 + v1 * v1 = 1" and n01: "v0 * v2 + v1 * v3 = 0"
    using o by (simp_all add: orthonormal2D_def v)
  define r0 r1 r2 r3 where r: "r0 = l0 * v0 * v0 + l1 * v2 * v2" "r1 = l0 * v1 * v0 + l1 * v3 * v2"
    "r2 = l0 * v0 * v1 + l1 * v2 * v3" "r3 = l0 * v1 * v1 + l1 * v3 * v3"
  have R: "reconstruct2D lambda vec = [r0, r1, r2, r3]"
    by (simp add: reconstruct2D_def r v l)
  have d: "\<bar>r0 - S ! 0\<bar> \<le> k" "\<bar>r1 - S ! 1\<bar> \<le> k" "\<bar>r2 - S ! 2\<bar> \<le> k" "\<bar>r3 - S ! 3\<bar> \<le> k"
    using c[rule_format, of 0] c[rule_format, of 1] c[rule_format, of 2] c[rule_format, of 3]
    by (simp_all add: R)
  have k0: "0 \<le> k"
    using d(1) by linarith
  have "v0 * v0 \<le> 1" "v1 * v1 \<le> 1"
    using n0 by (metis add.commute le_add_same_cancel1 zero_le_square)+
  then have b: "\<bar>v0\<bar> \<le> 1" "\<bar>v1\<bar> \<le> 1"
    by (metis abs_le_square_iff abs_one mult_1 power2_eq_square)+
  have p: "\<bar>x * v\<bar> \<le> k" if "\<bar>x\<bar> \<le> k" "\<bar>v\<bar> \<le> 1" for x v :: real
  proof -
    have "\<bar>x\<bar> * \<bar>v\<bar> \<le> k * 1"
      using that k0 by (intro mult_mono) simp_all
    then show ?thesis
      by (simp add: abs_mult)
  qed
  have e0: "r0 * v0 + r2 * v1 = l0 * v0"
  proof -
    have "r0 * v0 + r2 * v1 = l0 * v0 * (v0 * v0 + v1 * v1) + l1 * v2 * (v0 * v2 + v1 * v3)"
      by (simp add: r algebra_simps)
    then show ?thesis
      unfolding n0 n01 by simp
  qed
  have e1: "r1 * v0 + r3 * v1 = l0 * v1"
  proof -
    have "r1 * v0 + r3 * v1 = l0 * v1 * (v0 * v0 + v1 * v1) + l1 * v3 * (v0 * v2 + v1 * v3)"
      by (simp add: r algebra_simps)
    then show ?thesis
      unfolding n0 n01 by simp
  qed
  have "S ! 0 * v0 + S ! 2 * v1 - l0 * v0 = (S ! 0 - r0) * v0 + (S ! 2 - r2) * v1"
    unfolding e0[symmetric] by (simp add: algebra_simps)
  moreover have "\<bar>(S ! 0 - r0) * v0\<bar> \<le> k" "\<bar>(S ! 2 - r2) * v1\<bar> \<le> k"
    using d b by (auto intro!: p simp: abs_minus_commute)
  ultimately have "\<bar>S ! 0 * v0 + S ! 2 * v1 - l0 * v0\<bar> \<le> 2 * k"
    by linarith
  then show "\<bar>S ! 0 * vec ! 0 + S ! 2 * vec ! 1 - lambda ! 0 * vec ! 0\<bar> \<le> 2 * k"
    by (simp add: v l)
  have "S ! 1 * v0 + S ! 3 * v1 - l0 * v1 = (S ! 1 - r1) * v0 + (S ! 3 - r3) * v1"
    unfolding e1[symmetric] by (simp add: algebra_simps)
  moreover have "\<bar>(S ! 1 - r1) * v0\<bar> \<le> k" "\<bar>(S ! 3 - r3) * v1\<bar> \<le> k"
    using d b by (auto intro!: p simp: abs_minus_commute)
  ultimately have "\<bar>S ! 1 * v0 + S ! 3 * v1 - l0 * v1\<bar> \<le> 2 * k"
    by linarith
  then show "\<bar>S ! 1 * vec ! 0 + S ! 3 * vec ! 1 - lambda ! 0 * vec ! 1\<bar> \<le> 2 * k"
    by (simp add: v l)
qed

lemma locals_geometry:
  assumes "L = QUpdate2D_locals Q1D a z qx qy"
    and "off = qx + qy * Q1D + a_nqp a * 4 * z"
    and "J = [a_Jacobians a ! off, a_Jacobians a ! (off + a_nqp a),
              a_Jacobians a ! (off + 2 * a_nqp a), a_Jacobians a ! (off + 3 * a_nqp a)]"
  shows "q_J L = J"
    and "q_detJ L = J ! 0 * J ! 3 - J ! 1 * J ! 2"
    and "q_Jinv L = [J ! 3 / q_detJ L, - J ! 1 / q_detJ L, - J ! 2 / q_detJ L, J ! 0 / q_detJ L]"
  unfolding assms
  by (simp_all add: QUpdate2D_locals_def Let_def split_beta dim_def det2D_def replicate_4
      calcInverse2D_2x2 mult.assoc mult.left_commute)

lemma locals_state:
  assumes "L = QUpdate2D_locals Q1D a z qx qy"
    and "zq = z * a_nqp a + (qx + qy * Q1D)"
  shows "q_weight L = a_weights a ! (qx + qy * Q1D)"
    and "q_rho L = 1 / q_weight L * a_rho0DetJ0w a ! zq / q_detJ L"
    and "q_e L = fmax 0 (a_e_quads a ! zq)"
    and "q_p L = (a_gamma a - 1) * q_rho L * q_e L"
    and "q_sound_speed L = sqrt (a_gamma a * (a_gamma a - 1) * q_e L)"
  unfolding assms by (simp_all add: QUpdate2D_locals_def Let_def split_beta)

lemma locals_sgrad_v_explicit:
  assumes "a_use_viscosity a" and "L = QUpdate2D_locals Q1D a z qx qy"
    and "off = qx + qy * Q1D + a_nqp a * 4 * z"
    and "dV = [a_grad_v_ext a ! off, a_grad_v_ext a ! (off + a_nqp a),
               a_grad_v_ext a ! (off + 2 * a_nqp a), a_grad_v_ext a ! (off + 3 * a_nqp a)]"
  shows "q_sgrad_v L =
           [dV ! 0 * q_Jinv L ! 0 + dV ! 2 * q_Jinv L ! 1,
            0.5 * ((dV ! 0 * q_Jinv L ! 2 + dV ! 2 * q_Jinv L ! 3) +
                   (dV ! 1 * q_Jinv L ! 0 + dV ! 3 * q_Jinv L ! 1)),
            0.5 * ((dV ! 0 * q_Jinv L ! 2 + dV ! 2 * q_Jinv L ! 3) +
                   (dV ! 1 * q_Jinv L ! 0 + dV ! 3 * q_Jinv L ! 1)),
            dV ! 1 * q_Jinv L ! 2 + dV ! 3 * q_Jinv L ! 3]"
proof -
  have "q_sgrad_v L = symmetrize 2 (mult 2 2 2 dV (q_Jinv L) [0, 0, 0, 0])"
    unfolding assms(2,3,4) using assms(1)
    by (simp add: QUpdate2D_locals_def Let_def split_beta dim_def replicate_4
        mult.assoc mult.left_commute)
  then show ?thesis
    unfolding assms(4) mult_2x2_nth symmetrize_2x2 by simp
qed

lemma locals_direction:
  assumes "a_use_viscosity a" and "L = QUpdate2D_locals Q1D a z qx qy"
    and "zq = z * a_nqp a + (qx + qy * Q1D)"
    and "P = drop (zq * 4) (a_Jac0inv a)"
    and "E = calcEigenvalues2D 2 (q_sgrad_v L) (replicate 3 0) (replicate 9 0)"
  shows "q_mu L = fst E ! 0"
    and "q_compr_dir L = [snd E ! 0, snd E ! 1]"
    and "q_ph_dir L =
           [q_compr_dir L ! 0 * (q_J L ! 0 * P ! 0 + q_J L ! 2 * P ! 1) +
            q_compr_dir L ! 1 * (q_J L ! 0 * P ! 2 + q_J L ! 2 * P ! 3),
            q_compr_dir L ! 0 * (q_J L ! 1 * P ! 0 + q_J L ! 3 * P ! 1) +
            q_compr_dir L ! 1 * (q_J L ! 1 * P ! 2 + q_J L ! 3 * P ! 3)]"
    and "q_h L = a_h0 a * sqrt (q_ph_dir L ! 0 * q_ph_dir L ! 0 + q_ph_dir L ! 1 * q_ph_dir L ! 1) /
                 sqrt (q_compr_dir L ! 0 * q_compr_dir L ! 0 + q_compr_dir L ! 1 * q_compr_dir L ! 1)"
proof -
  show mu: "q_mu L = fst E ! 0"
    unfolding assms(5) using locals_mu[OF assms(1,2)] by (simp add: dim_def)
  show cd: "q_compr_dir L = [snd E ! 0, snd E ! 1]"
    unfolding assms(5) unfolding assms(2) using assms(1)
    by (simp add: QUpdate2D_locals_def Let_def split_beta dim_def upt_rec replicate_2)
  have "q_ph_dir L = multV 2 2 (mult 2 2 2 (q_J L) P [0, 0, 0, 0]) (q_compr_dir L) [0, 0]"
    unfolding assms(4) assms(3) assms(2) using assms(1)
    by (simp add: QUpdate2D_locals_def Let_def split_beta dim_def replicate_4 replicate_2
        mult.commute)
  moreover obtain j0 j1 j2 j3 where J: "q_J L = [j0, j1, j2, j3]"
    unfolding assms(2) by (simp add: QUpdate2D_locals_def Let_def split_beta)
  ultimately show ph: "q_ph_dir L =
           [q_compr_dir L ! 0 * (q_J L ! 0 * P ! 0 + q_J L ! 2 * P ! 1) +
            q_compr_dir L ! 1 * (q_J L ! 0 * P ! 2 + q_J L ! 2 * P ! 3),
            q_compr_dir L ! 0 * (q_J L ! 1 * P ! 0 + q_J L ! 3 * P ! 1) +
            q_compr_dir L ! 1 * (q_J L ! 1 * P ! 2 + q_J L ! 3 * P ! 3)]"
    unfolding cd J mult_2x2_nth multV_2x2 by simp
  have "q_h L = a_h0 a * norml2 2 (q_ph_dir L) / norml2 2 (q_compr_dir L)"
    unfolding assms(2) using assms(1)
    by (simp add: QUpdate2D_locals_def Let_def split_beta dim_def)
  then show "q_h L = a_h0 a * sqrt (q_ph_dir L ! 0 * q_ph_dir L ! 0 + q_ph_dir L ! 1 * q_ph_dir L ! 1) /
                 sqrt (q_compr_dir L ! 0 * q_compr_dir L ! 0 + q_compr_dir L ! 1 * q_compr_dir L ! 1)"
    unfolding ph unfolding cd norml2_2 by simp
qed

text \<open>C2. With viscosity enabled, at every quadrature point (\<open>L\<close> are the local variables
  of the point, \<open>J\<close> and \<open>dV\<close> the Jacobian and the velocity gradient read from the input
  buffers at the point, \<open>P\<close> the inverse initial Jacobian of the point):
  \<^item> \<open>eps\<close> is 1e-12;
  \<^item> \<open>Jinv\<close> is the adjugate of \<open>J\<close> over its determinant, \<open>rho\<close> is
    \<open>rho0DetJ0w / (weight * det J)\<close>, \<open>e\<close> is the energy cut off at 0, \<open>p = (gamma - 1) rho e\<close>
    and \<open>sound_speed = sqrt (gamma (gamma - 1) e)\<close>;
  \<^item> the symmetrized velocity gradient is the symmetric part of \<open>dV * Jinv\<close>, the gradient
    in the current configuration;
  \<^item> \<open>mu\<close> is the first, and smaller, of the two eigenvalues that \<open>calcEigenvalues2D\<close>
    returns for it, with the unit vector \<open>compr_dir\<close>: the eigenvectors are orthonormal,
    the decomposition reproduces the symmetrized gradient up to the tolerance of the
    solver, and \<open>(mu, compr_dir)\<close> satisfies the eigenvalue equation up to twice that;
  \<^item> \<open>h\<close> is \<open>h0\<close> times the length of \<open>J * P * compr_dir\<close> over the length of \<open>compr_dir\<close>;
  \<^item> the coefficient is
    \<open>visc = 2 rho h h \<bar>mu\<bar> + 0.5 rho h sound_speed (1 - smooth_step_01 (mu - 2 eps) eps)\<close>;
  \<^item> the stress is the pressure part, \<open>- p\<close> on the diagonal, plus \<open>visc\<close> times the
    symmetrized gradient, entry by entry;
  \<^item> whenever \<open>mu < eps\<close>, so in particular for \<open>mu\<close> negative and far below \<open>- eps\<close>, the
    sound-speed term is fully active: \<open>visc = 2 rho h h \<bar>mu\<bar> + 0.5 rho h sound_speed\<close>.\<close>

theorem QUpdate2D_viscosity:
  assumes "a_use_viscosity a"
    and "L = QUpdate2D_locals Q1D a z qx qy"
    and "zq = z * a_nqp a + (qx + qy * Q1D)"
    and "off = qx + qy * Q1D + a_nqp a * 4 * z"
    and "J = [a_Jacobians a ! off, a_Jacobians a ! (off + a_nqp a),
              a_Jacobians a ! (off + 2 * a_nqp a), a_Jacobians a ! (off + 3 * a_nqp a)]"
    and "dV = [a_grad_v_ext a ! off, a_grad_v_ext a ! (off + a_nqp a),
               a_grad_v_ext a ! (off + 2 * a_nqp a), a_grad_v_ext a ! (off + 3 * a_nqp a)]"
    and "P = drop (zq * 4) (a_Jac0inv a)"
    and "E = calcEigenvalues2D 2 (q_sgrad_v L) (replicate 3 0) (replicate 9 0)"
  shows "visc_eps = 1 / 10 ^ 12 \<and>
         q_J L = J \<and>
         q_detJ L = J ! 0 * J ! 3 - J ! 1 * J ! 2 \<and>
         q_Jinv L = [J ! 3 / q_detJ L, - J ! 1 / q_detJ L, - J ! 2 / q_detJ L, J ! 0 / q_detJ L] \<and>
         q_weight L = a_weights a ! (qx + qy * Q1D) \<and>
         q_rho L = 1 / q_weight L * a_rho0DetJ0w a ! zq / q_detJ L \<and>
         q_e L = fmax 0 (a_e_quads a ! zq) \<and>
         q_p L = (a_gamma a - 1) * q_rho L * q_e L \<and>
         q_sound_speed L = sqrt (a_gamma a * (a_gamma a - 1) * q_e L) \<and>
         q_sgrad_v L =
           [dV ! 0 * q_Jinv L ! 0 + dV ! 2 * q_Jinv L ! 1,
            0.5 * ((dV ! 0 * q_Jinv L ! 2 + dV ! 2 * q_Jinv L ! 3) +
                   (dV ! 1 * q_Jinv L ! 0 + dV ! 3 * q_Jinv L ! 1)),
            0.5 * ((dV ! 0 * q_Jinv L ! 2 + dV ! 2 * q_Jinv L ! 3) +
                   (dV ! 1 * q_Jinv L ! 0 + dV ! 3 * q_Jinv L ! 1)),
            dV ! 1 * q_Jinv L ! 2 + dV ! 3 * q_Jinv L ! 3] \<and>
         q_mu L = fst E ! 0 \<and> fst E ! 0 \<le> fst E ! 1 \<and> orthonormal2D (snd E) \<and>
         (\<forall>i<4. \<bar>reconstruct2D (fst E) (snd E) ! i - q_sgrad_v L ! i\<bar>
                   \<le> \<bar>q_sgrad_v L ! 2\<bar> / (4 * 10 ^ 16)) \<and>
         q_compr_dir L = [snd E ! 0, snd E ! 1] \<and>
         \<bar>q_sgrad_v L ! 0 * q_compr_dir L ! 0 + q_sgrad_v L ! 2 * q_compr_dir L ! 1
            - q_mu L * q_compr_dir L ! 0\<bar> \<le> 2 * (\<bar>q_sgrad_v L ! 2\<bar> / (4 * 10 ^ 16)) \<and>
         \<bar>q_sgrad_v L ! 1 * q_compr_dir L ! 0 + q_sgrad_v L ! 3 * q_compr_dir L ! 1
            - q_mu L * q_compr_dir L ! 1\<bar> \<le> 2 * (\<bar>q_sgrad_v L ! 2\<bar> / (4 * 10 ^ 16)) \<and>
         q_ph_dir L =
           [q_compr_dir L ! 0 * (J ! 0 * P ! 0 + J ! 2 * P ! 1) +
            q_compr_dir L ! 1 * (J ! 0 * P ! 2 + J ! 2 * P ! 3),
            q_compr_dir L ! 0 * (J ! 1 * P ! 0 + J ! 3 * P ! 1) +
            q_compr_dir L ! 1 * (J ! 1 * P ! 2 + J ! 3 * P ! 3)] \<and>
         q_h L = a_h0 a *
                   sqrt (q_ph_dir L ! 0 * q_ph_dir L ! 0 + q_ph_dir L ! 1 * q_ph_dir L ! 1) /
                   sqrt (q_compr_dir L ! 0 * q_compr_dir L ! 0 +
                         q_compr_dir L ! 1 * q_compr_dir L ! 1) \<and>
         q_visc_coeff L =
           2 * q_rho L * q_h L * q_h L * fabs (q_mu L) +
           0.5 * q_rho L * q_h L * q_sound_speed L *
             (1 - smooth_step_01 (q_mu L - 2 * visc_eps) visc_eps) \<and>
         (\<forall>k<4. q_stress L ! k =
            (if k = 0 \<or> k = 3 then - q_p L else 0) + q_visc_coeff L * q_sgrad_v L ! k) \<and>
         (q_mu L < visc_eps \<longrightarrow>
            q_visc_coeff L =
              2 * q_rho L * q_h L * q_h L * fabs (q_mu L) +
              0.5 * q_rho L * q_h L * q_sound_speed L)"
proof -
  note G = locals_geometry[OF assms(2,4,5)]
  note T = locals_state[OF assms(2,3)]
  note sg = locals_sgrad_v_explicit[OF assms(1,2,4,6)]
  note D = locals_direction[OF assms(1,2,3,7,8)]
  have len: "length (q_sgrad_v L) = 4" and sym: "q_sgrad_v L ! 1 = q_sgrad_v L ! 2"
    unfolding sg by simp_all
  obtain s0 s1 s2 s3 where s: "q_sgrad_v L = [s0, s1, s2, s3]"
    using length4[OF len] by blast
  have pr: "calcEigenvalues2D 2 (q_sgrad_v L) (replicate 3 0) (replicate 9 0) = (fst E, snd E)"
    unfolding assms(8) by simp
  have l3: "2 \<le> length (replicate 3 (0::real))" and l9: "4 \<le> length (replicate 9 (0::real))"
    by simp_all
  have ord: "fst E ! 0 \<le> fst E ! 1"
    unfolding assms(8) by (rule calcEigenvalues2D_ordered) simp_all
  obtain d0 d3 c sn where
    e: "eigensystem2S (q_sgrad_v L ! 2) (q_sgrad_v L ! 0) (q_sgrad_v L ! 3) = (d0, d3, c, sn)"
    by (metis prod_cases4)
  have cs: "c * c + sn * sn = 1"
    by (rule eigensystem2S_cs[OF e])
  then have sc: "sn * sn + c * c = 1"
    by simp
  have orth: "orthonormal2D (snd E)"
    using calcEigenvalues2D_nth[OF l3 l9 e pr] cs sc by (auto simp: orthonormal2D_def)
  have cl: "\<forall>i<4. \<bar>reconstruct2D (fst E) (snd E) ! i - q_sgrad_v L ! i\<bar>
                   \<le> \<bar>q_sgrad_v L ! 2\<bar> / (4 * 10 ^ 16)"
    using calcEigenvalues2D_close[OF len sym l3 l9 pr] by blast
  note ep = eigenpair_close[OF orth cl]
  have ep0: "\<bar>q_sgrad_v L ! 0 * q_compr_dir L ! 0 + q_sgrad_v L ! 2 * q_compr_dir L ! 1
            - q_mu L * q_compr_dir L ! 0\<bar> \<le> 2 * (\<bar>q_sgrad_v L ! 2\<bar> / (4 * 10 ^ 16))"
    using ep(1) unfolding D(1) D(2) by simp
  have ep1: "\<bar>q_sgrad_v L ! 1 * q_compr_dir L ! 0 + q_sgrad_v L ! 3 * q_compr_dir L ! 1
            - q_mu L * q_compr_dir L ! 1\<bar> \<le> 2 * (\<bar>q_sgrad_v L ! 2\<bar> / (4 * 10 ^ 16))"
    using ep(2) unfolding D(1) D(2) by simp
  have ph: "q_ph_dir L =
           [q_compr_dir L ! 0 * (J ! 0 * P ! 0 + J ! 2 * P ! 1) +
            q_compr_dir L ! 1 * (J ! 0 * P ! 2 + J ! 2 * P ! 3),
            q_compr_dir L ! 0 * (J ! 1 * P ! 0 + J ! 3 * P ! 1) +
            q_compr_dir L ! 1 * (J ! 1 * P ! 2 + J ! 3 * P ! 3)]"
    using D(3) unfolding G(1) .
  have vc: "q_visc_coeff L =
           2 * q_rho L * q_h L * q_h L * fabs (q_mu L) +
           0.5 * q_rho L * q_h L * q_sound_speed L *
             (1 - smooth_step_01 (q_mu L - 2 * visc_eps) visc_eps)"
    by (rule locals_visc_coeff[OF assms(1,2)])
  have st: "q_stress L =
      [- q_p L + q_visc_coeff L * s0, 0 + q_visc_coeff L * s1,
       0 + q_visc_coeff L * s2, - q_p L + q_visc_coeff L * s3]"
    unfolding locals_stress[OF assms(1,2)] s dim_def add_2x2 ..
  have el: "\<forall>k<4. q_stress L ! k =
            (if k = 0 \<or> k = 3 then - q_p L else 0) + q_visc_coeff L * q_sgrad_v L ! k"
  proof (intro allI impI)
    fix k :: nat
    assume "k < 4"
    then consider "k = 0" | "k = 1" | "k = 2" | "k = 3"
      by linarith
    then show "q_stress L ! k =
            (if k = 0 \<or> k = 3 then - q_p L else 0) + q_visc_coeff L * q_sgrad_v L ! k"
      by cases (simp_all add: st s)
  qed
  have act: "q_mu L < visc_eps \<longrightarrow> q_visc_coeff L =
              2 * q_rho L * q_h L * q_h L * fabs (q_mu L) +
              0.5 * q_rho L * q_h L * q_sound_speed L"
    using vc smooth_step_01_below[of "q_mu L"] by simp
  have ve: "visc_eps = 1 / 10 ^ 12"
    by (simp add: visc_eps_def)
  show ?thesis
    using ve G T sg D(1) ord orth cl D(2) ep0 ep1 ph D(4) vc el act by blast
qed

lemma stretched_zone_fields:
  "a_nqp stretched_zone = 16" "a_weights stretched_zone ! 0 = 1"
  "a_rho0DetJ0w stretched_zone ! 0 = 1" "a_e_quads stretched_zone ! 0 = 2"
  "a_gamma stretched_zone = 2" "a_use_viscosity stretched_zone"
  "a_h0 stretched_zone = 1" "a_h1order stretched_zone = 1"
  "a_Jacobians stretched_zone ! 0 = 2" "a_Jacobians stretched_zone ! 16 = 0"
  "a_Jacobians stretched_zone ! 32 = 0" "a_Jacobians stretched_zone ! 48 = 1"
  "a_grad_v_ext stretched_zone ! 0 = - 1" "a_grad_v_ext stretched_zone ! 16 = 0"
  "a_grad_v_ext stretched_zone ! 32 = 0" "a_grad_v_ext stretched_zone ! 48 = 0"
  "a_Jac0inv stretched_zone = [1, 0, 0, 1] @ concat (replicate 15 [1, 0, 0, 1])"
  by (simp_all add: stretched_zone_def nth_append eval_nat_numeral)

lemma eig_stretched:
  "calcEigenvalues2D 2 [- (1 / 2), 0, 0, 0] (replicate 3 0) (replicate 9 0) =
     ([- (1 / 2), 0, 0], [1, 0, 0, 1, 0, 0, 0, 0, 0])"
  by (simp add: calcEigenvalues2D_def eigensystem2S_def eval_nat_numeral)

theorem QUpdate2D_viscosity_witness:
  "q_Jinv (QUpdate2D_locals 4 stretched_zone 0 0 0) = [1 / 2, 0, 0, 1] \<and>
   q_rho (QUpdate2D_locals 4 stretched_zone 0 0 0) = 1 / 2 \<and>
   q_sound_speed (QUpdate2D_locals 4 stretched_zone 0 0 0) = 2 \<and>
   q_sgrad_v (QUpdate2D_locals 4 stretched_zone 0 0 0) = [- (1 / 2), 0, 0, 0] \<and>
   q_mu (QUpdate2D_locals 4 stretched_zone 0 0 0) = - (1 / 2) \<and>
   q_compr_dir (QUpdate2D_locals 4 stretched_zone 0 0 0) = [1, 0] \<and>
   q_ph_dir (QUpdate2D_locals 4 stretched_zone 0 0 0) = [2, 0] \<and>
   q_h (QUpdate2D_locals 4 stretched_zone 0 0 0) = 2 \<and>
   q_visc_coeff (QUpdate2D_locals 4 stretched_zone 0 0 0) = 3 \<and>
   q_stress (QUpdate2D_locals 4 stretched_zone 0 0 0) ! 0 = - (5 / 2)"
proof -
  define L where "L = QUpdate2D_locals 4 stretched_zone 0 0 0"
  note T = QUpdate2D_viscosity[of stretched_zone L 4 0 0 0, OF stretched_zone_fields(6) L_def
      refl refl refl refl refl refl]
  have J: "q_J L = [2, 0, 0, 1]" and d: "q_detJ L = 2"
    using T by (simp_all add: stretched_zone_fields)
  have Ji: "q_Jinv L = [1 / 2, 0, 0, 1]"
    using T by (simp add: stretched_zone_fields)
  have rho: "q_rho L = 1 / 2" and ss: "q_sound_speed L = 2" and p: "q_p L = 1"
    using T by (simp_all add: stretched_zone_fields)
  have sg: "q_sgrad_v L = [- (1 / 2), 0, 0, 0]"
    using T by (simp add: stretched_zone_fields)
  have mu: "q_mu L = - (1 / 2)" and cd: "q_compr_dir L = [1, 0]"
    using T by (simp_all add: sg eig_stretched)
  have ph: "q_ph_dir L = [2, 0]"
    using T by (simp add: cd stretched_zone_fields)
  have h: "q_h L = 2"
    using T by (simp add: cd ph stretched_zone_fields)
  have vc: "q_visc_coeff L = 3"
    using T by (simp add: h rho ss mu visc_eps_def)
  from T have "\<forall>k<4. q_stress L ! k =
      (if k = 0 \<or> k = 3 then - q_p L else 0) + q_visc_coeff L * q_sgrad_v L ! k"
    by blast
  then have st: "q_stress L ! 0 = - (5 / 2)"
    by (simp add: vc sg p)
  show ?thesis
    unfolding L_def[symmetric] using Ji rho ss sg mu cd ph h vc st by simp
qed

section \<open>Loop invariants\<close>

lemma fold_invariant:
  "(\<And>i s. P s \<Longrightarrow> P (f i s)) \<Longrightarrow> P s \<Longrightarrow> P (fold f ns s)"
  by (induction ns arbitrary: s) simp_all

lemma fold_upt_establish:
  assumes "k < n"
    and est: "\<And>s. I s \<Longrightarrow> Q (f k s)"
    and pres: "\<And>j s. j < n \<Longrightarrow> Q s \<Longrightarrow> Q (f j s)"
    and inv: "\<And>j s. j < n \<Longrightarrow> I s \<Longrightarrow> I (f j s)"
    and "I s0"
  shows "Q (fold f [0..<n] s0)"
  using assms
proof (induction n)
  case 0
  then show ?case by simp
next
  case (Suc n)
  show ?case
  proof (cases "k = n")
    case True
    have "I (fold f [0..<n] s0)"
      using Suc.prems(4,5) by (induction n) simp_all
    then show ?thesis
      using Suc.prems(2) True by simp
  next
    case False
    then have "k < n" using Suc.prems(1) by simp
    then have "Q (fold f [0..<n] s0)"
      using Suc.prems by (intro Suc.IH) simp_all
    then show ?thesis
      using Suc.prems(3) by simp
  qed
qed

lemma fold_upt_invariant:
  assumes "\<And>j s. j < n \<Longrightarrow> P s \<Longrightarrow> P (f j s)" and "P s0"
  shows "P (fold f [0..<n] s0)"
  using assms by (induction n) simp_all

lemma nth_update_zero: "xs ! i = (0::real) \<Longrightarrow> xs[k := 0] ! i = 0"
  by (cases "k < length xs") (simp_all add: nth_list_update list_update_beyond)

lemma slot_index:
  fixes i nz Q :: nat
  assumes "i < nz * (Q * Q)"
  obtains z qx qy where "z < nz" "qx < Q" "qy < Q" "i = z * (Q * Q) + (qx + qy * Q)"
proof -
  have Q: "0 < Q" using assms by (cases Q) simp_all
  define z where "z = i div (Q * Q)"
  define q where "q = i mod (Q * Q)"
  have "z < nz" unfolding z_def using assms Q
    by (simp add: less_mult_imp_div_less)
  moreover have "q mod Q < Q" using Q by simp
  moreover have "q div Q < Q" unfolding q_def using Q
    by (simp add: less_mult_imp_div_less)
  moreover have "i = z * (Q * Q) + (q mod Q + (q div Q) * Q)"
    unfolding z_def q_def mod_div_mult_eq by (rule div_mult_mod_eq[symmetric])
  ultimately show thesis using that by blast
qed

lemma fold_add_sum: "fold (\<lambda>i acc. acc + f i) [0..<n] (a::real) = a + sum f {..<n}"
  by (induction n) simp_all

lemma fill2:
  fixes idx :: "nat \<Rightarrow> nat \<Rightarrow> nat" and val :: "nat \<Rightarrow> nat \<Rightarrow> real"
  assumes "p0 < P" and "r0 < R" and "idx p0 r0 < length A"
    and same: "\<And>p r. p < P \<Longrightarrow> r < R \<Longrightarrow> idx p r = idx p0 r0 \<Longrightarrow> val p r = val p0 r0"
  shows "length (fold (\<lambda>p A. fold (\<lambda>r A. A[idx p r := val p r]) [0..<R] A) [0..<P] A) = length A \<and>
         fold (\<lambda>p A. fold (\<lambda>r A. A[idx p r := val p r]) [0..<R] A) [0..<P] A ! idx p0 r0
           = val p0 r0"
proof -
  define I where "I = (\<lambda>B :: real list. length B = length A)"
  define Q where "Q = (\<lambda>B :: real list. length B = length A \<and> B ! idx p0 r0 = val p0 r0)"
  have inv1: "I (B[idx p r := val p r])" if "I B" for p r B
    using that by (simp add: I_def)
  have pres1: "Q (B[idx p r := val p r])" if "p < P" "r < R" "Q B" for p r B
    using that same[of p r] assms(3) by (cases "idx p r = idx p0 r0") (simp_all add: Q_def)
  have est1: "Q (B[idx p0 r0 := val p0 r0])" if "I B" for B
    using that assms(3) by (simp add: Q_def I_def)
  have inv2: "I (fold (\<lambda>r A. A[idx p r := val p r]) [0..<R] B)" if "I B" for p B
    by (rule fold_upt_invariant[where P = I]) (use that inv1 in \<open>simp_all\<close>)
  have pres2: "Q (fold (\<lambda>r A. A[idx p r := val p r]) [0..<R] B)" if "p < P" "Q B" for p B
    by (rule fold_upt_invariant[where P = Q]) (use that pres1 in \<open>simp_all\<close>)
  have est2: "Q (fold (\<lambda>r A. A[idx p0 r := val p0 r]) [0..<R] B)" if "I B" for B
    by (rule fold_upt_establish[where I = I and Q = Q and k = r0])
       (use that assms(1,2) est1 pres1 inv1 in \<open>simp_all\<close>)
  have "Q (fold (\<lambda>p A. fold (\<lambda>r A. A[idx p r := val p r]) [0..<R] A) [0..<P] A)"
    by (rule fold_upt_establish[where I = I and Q = Q and k = p0])
       (use assms(1) est2 pres2 inv2 in \<open>simp_all add: I_def\<close>)
  then show ?thesis
    by (simp add: Q_def)
qed

lemma idx_bound:
  fixes a b A B :: nat
  assumes "a < A" and "b < B"
  shows "a + A * b < A * B"
proof -
  have "a + A * b < A + A * b" using assms(1) by simp
  also have "\<dots> = A * Suc b" by simp
  also have "\<dots> \<le> A * B" using assms(2) by (intro mult_le_mono2) simp
  finally show ?thesis .
qed

lemma idx_bound': 
  fixes a b A B :: nat
  assumes "a < A" and "b < B"
  shows "b * A + a < B * A"
  using idx_bound[OF assms] by (simp add: ac_simps)

lemma idx_inj:
  fixes q d q0 d0 D :: nat
  assumes "d < D" and "d0 < D" and "q * D + d = q0 * D + d0"
  shows "q = q0 \<and> d = d0"
proof -
  have "(q * D + d) div D = q" "(q0 * D + d0) div D = q0" 
       "(q * D + d) mod D = d" "(q0 * D + d0) mod D = d0"
    using assms(1,2) by simp_all
  then show ?thesis using assms(3) by metis
qed


lemma fill2_const:
  fixes idx :: "nat \<Rightarrow> nat \<Rightarrow> nat" and val :: "nat \<Rightarrow> nat \<Rightarrow> real"
  assumes vals: "\<And>p r. p < P \<Longrightarrow> r < R \<Longrightarrow> val p r = k"
    and "length A = L \<and> A ! j = k"
  shows "length (fold (\<lambda>p A. fold (\<lambda>r A. A[idx p r := val p r]) [0..<R] A) [0..<P] A) = L \<and>
         fold (\<lambda>p A. fold (\<lambda>r A. A[idx p r := val p r]) [0..<R] A) [0..<P] A ! j = k"
proof -
  define Q where "Q = (\<lambda>B :: real list. length B = L \<and> B ! j = k)"
  have pres1: "Q (B[idx p r := val p r])" if "p < P" "r < R" "Q B" for p r B
    using that vals[of p r]
    by (cases "idx p r < length B") (simp_all add: Q_def nth_list_update list_update_beyond)
  have pres2: "Q (fold (\<lambda>r A. A[idx p r := val p r]) [0..<R] B)" if "p < P" "Q B" for p B
    by (rule fold_upt_invariant[where P = Q]) (use that pres1 in \<open>simp_all\<close>)
  have "Q (fold (\<lambda>p A. fold (\<lambda>r A. A[idx p r := val p r]) [0..<R] A) [0..<P] A)"
    by (rule fold_upt_invariant[where P = Q]) (use pres2 assms(2) in \<open>simp_all add: Q_def\<close>)
  then show ?thesis
    by (simp add: Q_def)
qed

lemma slot_index4:
  fixes j Q V NE :: nat
  assumes "j < Q * Q * V * NE"
  obtains qx qy c e where "qx < Q" "qy < Q" "c < V" "e < NE"
    "j = qx + Q * (qy + Q * (c + V * e))"
proof -
  have Q: "0 < Q"
    using assms by (cases Q) simp_all
  have V: "0 < V"
    using assms by (cases V) simp_all
  define j1 where "j1 = j div Q"
  define j2 where "j2 = j1 div Q"
  have "j < (Q * V * NE) * Q" using assms by (simp add: ac_simps)
  then have b1: "j1 < Q * V * NE" unfolding j1_def by (rule less_mult_imp_div_less)
  then have "j1 < (V * NE) * Q" by (simp add: ac_simps)
  then have b2: "j2 < V * NE" unfolding j2_def by (rule less_mult_imp_div_less)
  then have "j2 < NE * V" by (simp add: ac_simps)
  then have b3: "j2 div V < NE" by (rule less_mult_imp_div_less)
  have "j = j mod Q + Q * j1" unfolding j1_def by simp
  moreover have "j1 = j1 mod Q + Q * j2" unfolding j2_def by simp
  moreover have "j2 = j2 mod V + V * (j2 div V)" by simp
  ultimately have "j = j mod Q + Q * (j1 mod Q + Q * (j2 mod V + V * (j2 div V)))"
    by simp
  moreover have "j mod Q < Q" "j1 mod Q < Q" "j2 mod V < V"
    using Q V by simp_all
  ultimately show thesis
    using that b3 by blast
qed

section \<open>The scalar basis evaluation reproduces constants\<close>

lemma vecToQuad2D_constant:
  assumes D: "D1D = (if T_D1D \<noteq> 0 then T_D1D else 1)"
    and Q: "Q1D = (if T_Q1D \<noteq> 0 then T_Q1D else 1)"
    and rows: "\<forall>q<Q1D. (\<Sum>d<D1D. b ! (q + Q1D * d)) = 1"
    and xs: "\<forall>j<D1D * D1D * VDIM * NE. x ! j = k"
    and len: "length y = Q1D * Q1D * VDIM * NE"
  shows "vecToQuad2D VDIM T_D1D T_Q1D T_NBZ NE b x y = replicate (length y) k"
proof -
  define N where "N = length y"
  define Bl where "Bl = fold (\<lambda>d B. fold (\<lambda>q B. B[q * D1D + d := b ! (q + Q1D * d)]) [0..<Q1D] B)
                      [0..<D1D] (replicate (Q1D * D1D) 0)"
  define DD where "DD = (\<lambda>e c. fold (\<lambda>dy DD.
                             fold (\<lambda>dx DD.
                               DD[dy * D1D + dx := x ! (dx + D1D * (dy + D1D * (c + VDIM * e)))])
                               [0..<D1D] DD)
                             [0..<D1D] (replicate (D1D * D1D) 0))"
  define DQ where "DQ = (\<lambda>e c. fold (\<lambda>dy DQ.
                             fold (\<lambda>qx DQ.
                               DQ[dy * Q1D + qx :=
                                  fold (\<lambda>dx dq. dq + Bl ! (qx * D1D + dx) * DD e c ! (dy * D1D + dx))
                                           [0..<D1D] 0])
                               [0..<Q1D] DQ)
                             [0..<D1D] (replicate (D1D * Q1D) 0))"
  define qq where "qq = (\<lambda>e c qy qx.
      fold (\<lambda>dy qq. qq + DQ e c ! (dy * Q1D + qx) * Bl ! (qy * D1D + dy)) [0..<D1D] 0)"
  define G where "G = (\<lambda>e c y. fold (\<lambda>qy y.
                       fold (\<lambda>qx y. y[qx + Q1D * (qy + Q1D * (c + VDIM * e)) := qq e c qy qx])
                         [0..<Q1D] y)
                       [0..<Q1D] y)"
  have unfold: "vecToQuad2D VDIM T_D1D T_Q1D T_NBZ NE b x y =
      fold (\<lambda>e y. fold (\<lambda>c y. G e c y) [0..<VDIM] y) [0..<NE] y"
    unfolding vecToQuad2D_def Let_def D[symmetric] Q[symmetric]
      G_def qq_def DQ_def DD_def Bl_def ..
  have Bl: "Bl ! (q * D1D + d) = b ! (q + Q1D * d)" if "q < Q1D" "d < D1D" for q d
  proof -
    have "q * D1D + d < Q1D * D1D"
      using that by (rule idx_bound'[rotated])
    then have bound: "q * D1D + d < length (replicate (Q1D * D1D) (0::real))"
      by simp
    have same: "b ! (r + Q1D * p) = b ! (q + Q1D * d)"
      if "p < D1D" "r < Q1D" "r * D1D + p = q * D1D + d" for p r
      using idx_inj[OF that(1) \<open>d < D1D\<close> that(3)] by simp
    note F = fill2[of d D1D q Q1D "\<lambda>d q. q * D1D + d" "replicate (Q1D * D1D) 0"
        "\<lambda>d q. b ! (q + Q1D * d)", OF that(2,1) bound same]
    show ?thesis
      unfolding Bl_def by (rule F[THEN conjunct2])
  qed
  have xk: "x ! (dx + D1D * (dy + D1D * (c + VDIM * e))) = k"
    if "e < NE" "c < VDIM" "dy < D1D" "dx < D1D" for e c dy dx
  proof -
    have "c + VDIM * e < VDIM * NE"
      using that by (intro idx_bound)
    then have "dy + D1D * (c + VDIM * e) < D1D * (VDIM * NE)"
      using that by (intro idx_bound)
    then have "dx + D1D * (dy + D1D * (c + VDIM * e)) < D1D * (D1D * (VDIM * NE))"
      using that by (intro idx_bound)
    then show ?thesis
      using xs by (simp add: ac_simps)
  qed
  have DDk: "DD e c ! (dy * D1D + dx) = k" if "e < NE" "c < VDIM" "dy < D1D" "dx < D1D" for e c dy dx
  proof -
    have "dy * D1D + dx < D1D * D1D"
      using that by (intro idx_bound')
    then have bound: "dy * D1D + dx < length (replicate (D1D * D1D) (0::real))"
      by simp
    have same: "x ! (r + D1D * (p + D1D * (c + VDIM * e))) = x ! (dx + D1D * (dy + D1D * (c + VDIM * e)))"
      if "p < D1D" "r < D1D" for p r
      using xk[OF \<open>e < NE\<close> \<open>c < VDIM\<close>] that \<open>dy < D1D\<close> \<open>dx < D1D\<close> by simp
    note F = fill2[of dy D1D dx D1D "\<lambda>dy dx. dy * D1D + dx" "replicate (D1D * D1D) 0"
        "\<lambda>dy dx. x ! (dx + D1D * (dy + D1D * (c + VDIM * e)))", OF that(3,4) bound same]
    have "DD e c ! (dy * D1D + dx) = x ! (dx + D1D * (dy + D1D * (c + VDIM * e)))"
      unfolding DD_def by (rule F[THEN conjunct2])
    then show ?thesis
      using xk[OF that] by simp
  qed
  have dqk: "fold (\<lambda>dx dq. dq + Bl ! (qx * D1D + dx) * DD e c ! (dy * D1D + dx)) [0..<D1D] 0 = k"
    if "e < NE" "c < VDIM" "dy < D1D" "qx < Q1D" for e c dy qx
  proof -
    have "(\<Sum>dx<D1D. Bl ! (qx * D1D + dx) * DD e c ! (dy * D1D + dx)) =
          (\<Sum>dx<D1D. b ! (qx + Q1D * dx) * k)"
      using that by (intro sum.cong) (simp_all add: Bl DDk)
    also have "\<dots> = (\<Sum>dx<D1D. b ! (qx + Q1D * dx)) * k"
      by (simp add: sum_distrib_right)
    also have "\<dots> = k"
      using rows that by simp
    finally show ?thesis
      by (simp add: fold_add_sum)
  qed
  have DQk: "DQ e c ! (dy * Q1D + qx) = k" if "e < NE" "c < VDIM" "dy < D1D" "qx < Q1D" for e c dy qx
  proof -
    have "dy * Q1D + qx < D1D * Q1D"
      using that by (intro idx_bound')
    then have bound: "dy * Q1D + qx < length (replicate (D1D * Q1D) (0::real))"
      by simp
    define val where "val = (\<lambda>dy qx.
        fold (\<lambda>dx dq. dq + Bl ! (qx * D1D + dx) * DD e c ! (dy * D1D + dx)) [0..<D1D] 0)"
    have vk: "val p r = k" if "p < D1D" "r < Q1D" for p r
      unfolding val_def using dqk[OF \<open>e < NE\<close> \<open>c < VDIM\<close> that] .
    have same: "val p r = val dy qx" if "p < D1D" "r < Q1D" for p r
      using vk[OF that] vk[OF \<open>dy < D1D\<close> \<open>qx < Q1D\<close>] by simp
    note F = fill2[of dy D1D qx Q1D "\<lambda>dy qx. dy * Q1D + qx" "replicate (D1D * Q1D) 0" val,
        OF that(3,4) bound same]
    have "DQ e c ! (dy * Q1D + qx) = val dy qx"
      unfolding DQ_def val_def[symmetric] using F[THEN conjunct2] unfolding val_def .
    then show ?thesis
      using vk[OF that(3,4)] by simp
  qed
  have qqk: "qq e c qy qx = k" if "e < NE" "c < VDIM" "qy < Q1D" "qx < Q1D" for e c qy qx
  proof -
    have "(\<Sum>dy<D1D. DQ e c ! (dy * Q1D + qx) * Bl ! (qy * D1D + dy)) =
          (\<Sum>dy<D1D. k * b ! (qy + Q1D * dy))"
      using that by (intro sum.cong) (simp_all add: Bl DQk)
    also have "\<dots> = k * (\<Sum>dy<D1D. b ! (qy + Q1D * dy))"
      by (simp add: sum_distrib_left)
    also have "\<dots> = k"
      using rows that by simp
    finally show ?thesis
      by (simp add: qq_def fold_add_sum)
  qed
  have slot: "length (fold (\<lambda>e y. fold (\<lambda>c y. G e c y) [0..<VDIM] y) [0..<NE] y) = N \<and>
              fold (\<lambda>e y. fold (\<lambda>c y. G e c y) [0..<VDIM] y) [0..<NE] y ! j = k"
    if "j < N" for j
  proof -
    from that obtain qx0 qy0 c0 e0 where r: "qx0 < Q1D" "qy0 < Q1D" "c0 < VDIM" "e0 < NE"
      and j: "j = qx0 + Q1D * (qy0 + Q1D * (c0 + VDIM * e0))"
      using slot_index4[of j Q1D VDIM NE] by (metis N_def len)
    define I where "I = (\<lambda>B :: real list. length B = N)"
    define P where "P = (\<lambda>B :: real list. length B = N \<and> B ! j = k)"
    have lenG: "length (G e c B) = length B" for e c B
      unfolding G_def by (simp add: fold_length)
    have inv1: "I (G e c B)" if "I B" for e c B
      using that by (simp add: I_def lenG)
    have pres1: "P (G e c B)" if "e < NE" "c < VDIM" "P B" for e c B
      unfolding G_def P_def
      by (rule fill2_const) (use that qqk in \<open>simp_all add: P_def\<close>)
    have est1: "P (G e0 c0 B)" if "I B" for B
    proof -
      have bound: "qx0 + Q1D * (qy0 + Q1D * (c0 + VDIM * e0)) < length B"
        using that \<open>j < N\<close> by (simp add: I_def j)
      have same: "qq e0 c0 p r = qq e0 c0 qy0 qx0" if "p < Q1D" "r < Q1D" for p r
        using qqk[OF r(4,3) that] qqk[OF r(4,3,2,1)] by simp
      note F = fill2[of qy0 Q1D qx0 Q1D "\<lambda>qy qx. qx + Q1D * (qy + Q1D * (c0 + VDIM * e0))" B
          "\<lambda>qy qx. qq e0 c0 qy qx", OF r(2,1) bound same]
      have "length (G e0 c0 B) = length B" "G e0 c0 B ! j = qq e0 c0 qy0 qx0"
        unfolding G_def j using F by blast+
      then show ?thesis
        using that qqk[OF r(4,3,2,1)] by (simp add: P_def I_def)
    qed
    have inv2: "I (fold (\<lambda>c y. G e c y) [0..<VDIM] B)" if "I B" for e B
      by (rule fold_upt_invariant[where P = I]) (use that inv1 in \<open>simp_all\<close>)
    have pres2: "P (fold (\<lambda>c y. G e c y) [0..<VDIM] B)" if "e < NE" "P B" for e B
      by (rule fold_upt_invariant[where P = P]) (use that pres1 in \<open>simp_all\<close>)
    have est2: "P (fold (\<lambda>c y. G e0 c y) [0..<VDIM] B)" if "I B" for B
      by (rule fold_upt_establish[where I = I and Q = P and k = c0])
         (use that r est1 pres1 inv1 in \<open>simp_all\<close>)
    have "P (fold (\<lambda>e y. fold (\<lambda>c y. G e c y) [0..<VDIM] y) [0..<NE] y)"
      by (rule fold_upt_establish[where I = I and Q = P and k = e0])
         (use r est2 pres2 inv2 in \<open>simp_all add: I_def N_def\<close>)
    then show ?thesis
      by (simp add: P_def)
  qed
  have L: "length (fold (\<lambda>e y. fold (\<lambda>c y. G e c y) [0..<VDIM] y) [0..<NE] y) = length y"
    by (simp add: fold_length G_def)
  show ?thesis
    unfolding unfold
    by (rule nth_equalityI) (use slot L in \<open>simp_all add: N_def\<close>)
qed

lemma scalar_keys:
  "(push_bit 8 (of_nat 1) OR push_bit 4 (of_nat 2) OR of_nat 4 :: 32 word) = 0x124"
  "(push_bit 8 (of_nat 1) OR push_bit 4 (of_nat 3) OR of_nat 6 :: 32 word) = 0x136"
  "(push_bit 8 (of_nat 1) OR push_bit 4 (of_nat 4) OR of_nat 8 :: 32 word) = 0x148"
  by simp_all

text \<open>C9. For every registered combination of the scalar dispatch table, that is
  (dofs1D, quad1D) one of (2, 4), (3, 6), (4, 8) with vdim 1, and every interpolation
  table \<open>b\<close> (a table whose basis values sum to one at each quadrature point): applied to
  nodal coefficients that all equal \<open>k\<close>, \<open>Dof2QuadScalar\<close> finds the kernel, ends without
  fault, prints nothing, and the kernel writes \<open>k\<close> at every quadrature point (qx, qy) of
  every zone e.\<close>

theorem scalar_kernel_reproduces_constants:
  assumes "(dofs1D, quad1D) \<in> {(2, 4), (3, 6), (4, 8)}"
    and "interpolates_constants quad1D dofs1D b"
    and "\<forall>j<dofs1D * dofs1D * nzones. x ! j = k"
    and "length y = quad1D * quad1D * nzones"
  shows "Dof2QuadScalar debug 1 nzones dofs1D quad1D b x (out, y) =
           (None, out, replicate (length y) k) \<and>
         (\<forall>e<nzones. \<forall>qy<quad1D. \<forall>qx<quad1D.
            snd (snd (Dof2QuadScalar debug 1 nzones dofs1D quad1D b x (out, y))) !
              (qx + quad1D * (qy + quad1D * e)) = k)"
proof -
  have rows: "\<forall>q<quad1D. (\<Sum>d<dofs1D. b ! (q + quad1D * d)) = 1"
    using assms(2) by (simp add: interpolates_constants_def)
  have xs: "\<forall>j<dofs1D * dofs1D * 1 * nzones. x ! j = k"
    using assms(3) by simp
  have len: "length y = quad1D * quad1D * 1 * nzones"
    using assms(4) by simp
  have pos: "dofs1D \<noteq> 0" "quad1D \<noteq> 0"
    using assms(1) by auto
  have V: "vecToQuad2D 1 dofs1D quad1D nbz nzones b x y = replicate (length y) k" for nbz
    by (rule vecToQuad2D_constant[where ?D1D = dofs1D and ?Q1D = quad1D, OF _ _ rows xs len])
       (simp_all add: pos)
  have "\<exists>nbz. call_scalar (push_bit 8 (of_nat 1) OR push_bit 4 (of_nat dofs1D) OR of_nat quad1D)
          = Some (1, dofs1D, quad1D, nbz)"
    using assms(1) by (auto simp: scalar_keys call_scalar_def)
  then have run: "Dof2QuadScalar debug 1 nzones dofs1D quad1D b x (out, y) =
           (None, out, replicate (length y) k)"
    using V by (auto simp: Dof2QuadScalar_def Let_def)
  have "qx + quad1D * (qy + quad1D * e) < length y"
    if "e < nzones" "qy < quad1D" "qx < quad1D" for e qy qx
  proof -
    have "qy + quad1D * e < quad1D * nzones"
      using that by (intro idx_bound)
    then have "qx + quad1D * (qy + quad1D * e) < quad1D * (quad1D * nzones)"
      using that by (intro idx_bound)
    then show ?thesis
      by (simp add: assms(4) ac_simps)
  qed
  then show ?thesis
    unfolding run by simp
qed

theorem scalar_kernel_reproduces_constants_witness:
  "Dof2QuadScalar False 1 1 2 4 (replicate 8 (1 / 2)) (replicate 4 7) ([], replicate 16 0) =
     (None, [], replicate 16 7)"
proof -
  have "(\<Sum>d<2. replicate 8 (1 / 2 :: real) ! (q + 4 * d)) = 1" if "q < 4" for q :: nat
  proof -
    have "(\<Sum>d<2. replicate 8 (1 / 2 :: real) ! (q + 4 * d)) =
          replicate 8 (1 / 2) ! q + replicate 8 (1 / 2) ! (q + 4)"
      by (simp add: numeral_2_eq_2)
    also have "\<dots> = 1"
      using that by simp
    finally show ?thesis .
  qed
  then have "interpolates_constants 4 2 (replicate 8 (1 / 2))"
    by (simp add: interpolates_constants_def)
  from scalar_kernel_reproduces_constants[of 2 4 "replicate 8 (1 / 2)" 1 "replicate 4 7" 7
      "replicate 16 0" False "[]", OF _ this]
  show ?thesis
    by simp
qed

section \<open>The global time-step estimate\<close>

lemma set_update_le:
  assumes "\<forall>x\<in>set xs. x \<le> g" and "v \<le> g"
  shows "\<forall>x\<in>set (xs[i := v]). x \<le> (g::real)"
  using assms set_update_subset_insert[of xs i v] by auto

lemma set_update_ge:
  assumes "\<forall>x\<in>set xs. g \<le> x" and "g \<le> v"
  shows "\<forall>x\<in>set (xs[i := v]). (g::real) \<le> x"
  using assms set_update_subset_insert[of xs i v] by auto

lemma set_update_min_le:
  assumes "\<forall>x\<in>set xs. x \<le> g"
  shows "\<forall>x\<in>set (xs[i := fmin (xs ! i) c]). x \<le> (g::real)"
proof (cases "i < length xs")
  case True
  then have "xs ! i \<le> g" using assms by simp
  then have "fmin (xs ! i) c \<le> g" by simp
  then show ?thesis using assms by (rule set_update_le[rotated])
next
  case False
  then show ?thesis using assms by (simp add: list_update_beyond)
qed

lemma set_update_min_ge:
  assumes "\<forall>x\<in>set xs. 0 \<le> x" and "0 \<le> c"
  shows "\<forall>x\<in>set (xs[i := fmin (xs ! i) c]). (0::real) \<le> x"
proof (cases "i < length xs")
  case True
  then have "0 \<le> xs ! i" using assms by simp
  then have "0 \<le> fmin (xs ! i) c" using assms(2) by simp
  then show ?thesis using assms(1) by (rule set_update_ge[rotated])
next
  case False
  then show ?thesis using assms by (simp add: list_update_beyond)
qed

lemma point_bounded:
  assumes "0 \<le> g" and "dt_bounded g (fst (snd st))"
  shows "dt_bounded g (fst (snd (QUpdate2D_point Q1D a z qx qy st)))"
proof -
  obtain m dt S where st: "st = (m, dt, S)" by (metis prod_cases3)
  obtain m' d' S' where r: "QUpdate2D_point Q1D a z qx qy (m, dt, S) = (m', d', S')"
    by (metis prod_cases3)
  have b: "\<forall>x\<in>set dt. x \<le> g" using assms(2) by (simp add: st dt_bounded_def)
  have "\<forall>x\<in>set d'. x \<le> g"
    using QUpdate2D_point_unfold[OF r] set_update_le[OF b assms(1)] set_update_min_le[OF b] b
    by (auto split: if_splits)
  then show ?thesis by (simp add: st r dt_bounded_def)
qed

lemma point_nonneg:
  assumes "0 \<le> a_cfl a" and "dt_nonneg (fst (snd st))"
  shows "dt_nonneg (fst (snd (QUpdate2D_point Q1D a z qx qy st)))"
proof -
  obtain m dt S where st: "st = (m, dt, S)" by (metis prod_cases3)
  obtain m' d' S' where r: "QUpdate2D_point Q1D a z qx qy (m, dt, S) = (m', d', S')"
    by (metis prod_cases3)
  have b: "\<forall>x\<in>set dt. 0 \<le> x" using assms(2) by (simp add: st dt_nonneg_def)
  have c: "0 \<le> a_cfl a / q_inv_dt (QUpdate2D_locals Q1D a z qx qy)"
    if "q_inv_dt (QUpdate2D_locals Q1D a z qx qy) > 0"
    using that assms(1) by simp
  have "\<forall>x\<in>set d'. 0 \<le> x"
    using QUpdate2D_point_unfold[OF r] set_update_ge[OF b order_refl] set_update_min_ge[OF b c] b
    by (auto split: if_splits)
  then show ?thesis by (simp add: st r dt_nonneg_def)
qed

lemma zone_inv:
  assumes step: "\<And>z qx qy st. P (fst (snd st)) \<Longrightarrow> P (fst (snd (QUpdate2D_point Q1D a z qx qy st)))"
    and "P (fst bufs)"
  shows "P (fst (QUpdate2D_zone Q1D a z bufs))"
proof -
  have inner: "P (fst (snd (fold (\<lambda>qy st. QUpdate2D_point Q1D a z qx qy st) [0..<Q1D] st)))"
    if "P (fst (snd st))" for qx st
    using that by (rule fold_invariant[where P = "\<lambda>st. P (fst (snd st))", rotated]) (rule step)
  have "P (fst (snd (fold (\<lambda>qx st. fold (\<lambda>qy st. QUpdate2D_point Q1D a z qx qy st) [0..<Q1D] st)
                [0..<Q1D] (a_infinity a, fst bufs, snd bufs))))"
    by (rule fold_invariant[where P = "\<lambda>st. P (fst (snd st))"]) (simp_all add: inner assms(2))
  then show ?thesis
    by (simp add: QUpdate2D_zone_def split_beta)
qed

lemma QUpdate2D_inv:
  assumes step: "\<And>z qx qy st. P (fst (snd st)) \<Longrightarrow> P (fst (snd (QUpdate2D_point Q1D a z qx qy st)))"
    and "P (fst bufs)"
  shows "P (fst (QUpdate2D Q1D a bufs))"
  unfolding QUpdate2D_def
proof (rule fold_invariant[where P = "\<lambda>b. P (fst b)"])
  show "P (fst bufs)"
    by (rule assms(2))
next
  fix i and s :: "buffer \<times> buffer"
  assume "P (fst s)"
  with step show "P (fst (QUpdate2D_zone Q1D a i s))"
    by (rule zone_inv)
qed

lemma Vector_Min_mem: "v \<noteq> [] \<Longrightarrow> Vector_Min infty v \<in> set v"
proof -
  have "fold (\<lambda>y m. if y < m then y else m) xs x \<in> set (x # xs)" for xs and x :: real
    by (induction xs arbitrary: x) auto
  then show "v \<noteq> [] \<Longrightarrow> Vector_Min infty v \<in> set v"
    by (cases v) (simp_all add: Vector_Min_def)
qed

lemma length_QUpdate2D: "length (fst (QUpdate2D Q1D a bufs)) = length (fst bufs)"
  by (rule QUpdate2D_inv[where P = "\<lambda>d. length d = length (fst bufs)"])
     (auto simp: QUpdate2D_point_def Let_def split: prod.splits)

lemma UQD_result:
  assumes "UpdateQuadratureData2D S nqp1D s = (None, s')" and "\<not> quad_data_is_current s"
    and H: "\<And>Q1D a S0. a_cfl a = m_cfl (qupdate s) \<Longrightarrow>
           R (Vector_Min (numeric_infinity (qupdate s))
               (fst (QUpdate2D Q1D a (map (\<lambda>x. qd_dt_est (quad_data s)) (d_dt_est (qupdate s)), S0))))"
  shows "R (qd_dt_est (quad_data s'))"
  using assms(1,2)
  by (auto simp: UpdateQuadratureData2D_def Let_def kernel_args_def split_beta
      split: if_splits option.splits intro!: H)


lemma point_inverted:
  assumes "q_detJ (QUpdate2D_locals Q1D a z qx qy) < 0"
  shows "fst (snd (QUpdate2D_point Q1D a z qx qy st)) =
           (fst (snd st))[z * a_nqp a + (qx + qy * Q1D) := 0]"
proof -
  obtain m dt S where st: "st = (m, dt, S)" by (metis prod_cases3)
  obtain m' d' S' where r: "QUpdate2D_point Q1D a z qx qy (m, dt, S) = (m', d', S')"
    by (metis prod_cases3)
  from QUpdate2D_point_unfold[OF r] assms show ?thesis
    by (auto simp: st r min_def split: if_splits)
qed

lemma QUpdate2D_all_inverted:
  assumes neg: "\<And>z qx qy. z < a_nzones a \<Longrightarrow> qx < Q1D \<Longrightarrow> qy < Q1D \<Longrightarrow>
                  q_detJ (QUpdate2D_locals Q1D a z qx qy) < 0"
    and nqp: "a_nqp a = Q1D * Q1D" and len: "length dt = a_nzones a * a_nqp a"
  shows "fst (QUpdate2D Q1D a (dt, S)) = replicate (length dt) 0"
proof -
  define N where "N = length dt"
  have slot: "length (fst (QUpdate2D Q1D a (dt, S))) = N \<and> fst (QUpdate2D Q1D a (dt, S)) ! i = 0"
    if "i < N" for i
  proof -
    from that obtain z0 qx0 qy0 where r: "z0 < a_nzones a" "qx0 < Q1D" "qy0 < Q1D"
      and i: "i = z0 * a_nqp a + (qx0 + qy0 * Q1D)"
      using slot_index[of i "a_nzones a" Q1D] by (metis N_def len nqp)
    define I3 where "I3 = (\<lambda>st :: real \<times> buffer \<times> buffer. length (fst (snd st)) = N)"
    define Q3 where "Q3 = (\<lambda>st :: real \<times> buffer \<times> buffer.
                             length (fst (snd st)) = N \<and> fst (snd st) ! i = 0)"
    have inv_pt: "I3 (QUpdate2D_point Q1D a z qx qy st)"
      if "z < a_nzones a" "qx < Q1D" "qy < Q1D" "I3 st" for z qx qy st
      using that by (simp add: I3_def point_inverted[OF neg])
    have pres_pt: "Q3 (QUpdate2D_point Q1D a z qx qy st)"
      if "z < a_nzones a" "qx < Q1D" "qy < Q1D" "Q3 st" for z qx qy st
      using that by (simp add: Q3_def point_inverted[OF neg] nth_update_zero)
    have est_pt: "Q3 (QUpdate2D_point Q1D a z0 qx0 qy0 st)" if "I3 st" for st
      using that \<open>i < N\<close> r by (simp add: Q3_def I3_def point_inverted[OF neg] i)
    have inv_qx: "I3 (fold (QUpdate2D_point Q1D a z qx) [0..<Q1D] st)"
      if "z < a_nzones a" "qx < Q1D" "I3 st" for z qx st
      by (rule fold_upt_invariant[where P = I3]) (use that inv_pt in \<open>simp_all\<close>)
    have pres_qx: "Q3 (fold (QUpdate2D_point Q1D a z qx) [0..<Q1D] st)"
      if "z < a_nzones a" "qx < Q1D" "Q3 st" for z qx st
      by (rule fold_upt_invariant[where P = Q3]) (use that pres_pt in \<open>simp_all\<close>)
    have est_qx: "Q3 (fold (QUpdate2D_point Q1D a z0 qx0) [0..<Q1D] st)" if "I3 st" for st
      by (rule fold_upt_establish[where I = I3 and Q = Q3 and k = qy0]) (use r est_pt pres_pt inv_pt that in \<open>simp_all\<close>)
    define I2 where "I2 = (\<lambda>b :: buffer \<times> buffer. length (fst b) = N)"
    define Q2 where "Q2 = (\<lambda>b :: buffer \<times> buffer. length (fst b) = N \<and> fst b ! i = 0)"
    have zone_eq: "QUpdate2D_zone Q1D a z b =
        (fst (snd (fold (\<lambda>qx. fold (QUpdate2D_point Q1D a z qx) [0..<Q1D]) [0..<Q1D]
                     (a_infinity a, fst b, snd b))),
         snd (snd (fold (\<lambda>qx. fold (QUpdate2D_point Q1D a z qx) [0..<Q1D]) [0..<Q1D]
                     (a_infinity a, fst b, snd b))))" for z b
      by (simp add: QUpdate2D_zone_def split_beta)
    have inv_z: "I2 (QUpdate2D_zone Q1D a z b)" if "z < a_nzones a" "I2 b" for z b
    proof -
      have "I3 (fold (\<lambda>qx. fold (QUpdate2D_point Q1D a z qx) [0..<Q1D]) [0..<Q1D]
                     (a_infinity a, fst b, snd b))"
        by (rule fold_upt_invariant[where P = I3]) (use that inv_qx in \<open>simp_all add: I3_def I2_def\<close>)
      then show ?thesis by (simp add: zone_eq I2_def I3_def)
    qed
    have pres_z: "Q2 (QUpdate2D_zone Q1D a z b)" if "z < a_nzones a" "Q2 b" for z b
    proof -
      have "Q3 (fold (\<lambda>qx. fold (QUpdate2D_point Q1D a z qx) [0..<Q1D]) [0..<Q1D]
                     (a_infinity a, fst b, snd b))"
        by (rule fold_upt_invariant[where P = Q3]) (use that pres_qx in \<open>simp_all add: Q3_def Q2_def\<close>)
      then show ?thesis by (simp add: zone_eq Q2_def Q3_def)
    qed
    have est_z: "Q2 (QUpdate2D_zone Q1D a z0 b)" if "I2 b" for b
    proof -
      have "Q3 (fold (\<lambda>qx. fold (QUpdate2D_point Q1D a z0 qx) [0..<Q1D]) [0..<Q1D]
                     (a_infinity a, fst b, snd b))"
        by (rule fold_upt_establish[where I = I3 and Q = Q3 and k = qx0]) (use that r est_qx pres_qx inv_qx in \<open>simp_all add: I3_def I2_def\<close>)
      then show ?thesis by (simp add: zone_eq Q2_def Q3_def)
    qed
    have "Q2 (fold (QUpdate2D_zone Q1D a) [0..<a_nzones a] (dt, S))"
      by (rule fold_upt_establish[where I = I2 and Q = Q2 and k = z0]) (use r est_z pres_z inv_z in \<open>simp_all add: I2_def N_def\<close>)
    then show ?thesis
      by (simp add: QUpdate2D_def Q2_def)
  qed
  have L: "length (fst (QUpdate2D Q1D a (dt, S))) = length dt"
    by (simp add: length_QUpdate2D)
  show ?thesis
    by (rule nth_equalityI) (use slot L in \<open>simp_all add: N_def\<close>)
qed

lemma sample_keys:
  "(push_bit 8 (of_nat 1) OR push_bit 4 (of_nat (1 + 1)) OR of_nat 4 :: 32 word) = 0x124"
  "(push_bit 4 (of_nat (2 + 1)) OR of_nat 4 :: 32 word) = 0x34"
  by simp_all

lemma sample_x: "take 18 sample_S = [0, 0, 0, 1, 0, 0, 0, 0, 0, 0, 1, 0, 0, 0, 0, 0, 0, 0]"
  by (simp add: sample_S_def)

lemma grad_eval:
  "qGradVector2D 3 4 1 1 sample_B sample_G [0, 0, 0, 1, 0, 0, 0, 0, 0, 0, 1, 0, 0, 0, 0, 0, 0, 0]
     (replicate 64 0) =
   replicate 16 0 @ replicate 16 1 @ replicate 16 1 @ replicate 16 0"
  by code_simp

lemma grad_eval_Suc:
  "qGradVector2D 3 4 (Suc 0) (Suc 0) sample_B sample_G
     [0, 0, 0, 1, 0, 0, 0, 0, 0, 0, 1, 0, 0, 0, 0, 0, 0, 0] (replicate 64 0) =
   replicate 16 0 @ replicate 16 1 @ replicate 16 1 @ replicate 16 0"
  using grad_eval by simp

lemma locals_detJ_explicit:
  "q_detJ (QUpdate2D_locals Q1D a z qx qy) =
     a_Jacobians a ! (qx + qy * Q1D + 4 * a_nqp a * z) *
       a_Jacobians a ! (qx + qy * Q1D + 4 * a_nqp a * z + 3 * a_nqp a) -
     a_Jacobians a ! (qx + qy * Q1D + 4 * a_nqp a * z + a_nqp a) *
       a_Jacobians a ! (qx + qy * Q1D + 4 * a_nqp a * z + 2 * a_nqp a)"
  by (simp add: QUpdate2D_locals_def Let_def split_beta dim_def det2D_def)

lemma sample_kernel:
  assumes "a_nzones a = 1" and "a_nqp a = 16"
    and "a_Jacobians a = replicate 16 0 @ replicate 16 1 @ replicate 16 1 @ replicate 16 0"
  shows "fst (QUpdate2D 4 a (replicate 16 g, S)) = replicate 16 0"
proof -
  have "q_detJ (QUpdate2D_locals 4 a z qx qy) < 0" if "z < a_nzones a" "qx < 4" "qy < 4" for z qx qy
    using that assms by (simp add: locals_detJ_explicit nth_append)
  from QUpdate2D_all_inverted[of a 4 "replicate 16 g" S, OF this] show ?thesis
    using assms by simp
qed

lemma Vector_Min_zeros: "Vector_Min infty (replicate 16 0) = 0"
  by (simp add: Vector_Min_def eval_nat_numeral)

lemma sample_run:
  "fst (UpdateQuadratureData2D sample_S 4 (sample_state False g)) = None \<and>
   qd_dt_est (quad_data (snd (UpdateQuadratureData2D sample_S 4 (sample_state False g)))) = 0 \<and>
   quad_data_is_current (snd (UpdateQuadratureData2D sample_S 4 (sample_state False g)))"
  by (simp add: UpdateQuadratureData2D_def sample_state_def sample_qupdate_def Let_def
      Dof2QuadScalar_def Dof2QuadGrad_def sample_keys call_scalar_def call_grad_def
      qupdate2q_def sample_x grad_eval_Suc split_beta kernel_args_def sample_kernel Vector_Min_zeros)


text \<open>C10, as amended. A completed call of the update that starts from a non-negative
  global estimate (and a non-empty buffer \<^verbatim>\<open>d_dt_est\<close>) leaves the global estimate at most
  its value before the call. If moreover the CFL number is non-negative, the new
  estimate is non-negative again, so from a non-negative start the estimate does not
  increase across successive calls.\<close>

theorem dt_est_non_increasing:
  assumes "UpdateQuadratureData2D S nqp1D s = (None, s')"
    and "0 \<le> qd_dt_est (quad_data s)" and "d_dt_est (qupdate s) \<noteq> []"
  shows "qd_dt_est (quad_data s') \<le> qd_dt_est (quad_data s) \<and>
         (0 \<le> m_cfl (qupdate s) \<longrightarrow> 0 \<le> qd_dt_est (quad_data s'))"
proof (cases "quad_data_is_current s")
  case True
  then have "s' = s"
    using assms(1) by (simp add: UpdateQuadratureData2D_def)
  then show ?thesis
    using assms(2) by simp
next
  case False
  define g where "g = qd_dt_est (quad_data s)"
  define d0 where "d0 = map (\<lambda>x. g) (d_dt_est (qupdate s))"
  have d0: "dt_bounded g d0" "dt_nonneg d0" "d0 \<noteq> []"
    using assms(2,3) by (auto simp: d0_def dt_bounded_def dt_nonneg_def g_def)
  have key: "Vector_Min infty (fst (QUpdate2D Q1D a (d0, S0))) \<le> g \<and>
             (0 \<le> m_cfl (qupdate s) \<longrightarrow> 0 \<le> Vector_Min infty (fst (QUpdate2D Q1D a (d0, S0))))"
    if cfl: "a_cfl a = m_cfl (qupdate s)" for Q1D a S0 infty
  proof -
    define D where "D = fst (QUpdate2D Q1D a (d0, S0))"
    have "length D = length d0"
      by (simp add: D_def length_QUpdate2D)
    then have "D \<noteq> []"
      using d0(3) by auto
    then have mem: "Vector_Min infty D \<in> set D"
      by (rule Vector_Min_mem)
    have "dt_bounded g D"
      unfolding D_def
      by (rule QUpdate2D_inv[where P = "dt_bounded g"])
         (use assms(2) d0(1) point_bounded in \<open>simp_all add: g_def\<close>)
    then have le: "Vector_Min infty D \<le> g"
      using mem by (simp add: dt_bounded_def)
    have "0 \<le> Vector_Min infty D" if "0 \<le> m_cfl (qupdate s)"
    proof -
      have "dt_nonneg D"
        unfolding D_def
        by (rule QUpdate2D_inv[where P = dt_nonneg])
           (use that cfl d0(2) point_nonneg in \<open>simp_all\<close>)
      then show ?thesis
        using mem by (simp add: dt_nonneg_def)
    qed
    then show ?thesis
      using le by (simp add: D_def)
  qed
  show ?thesis
    by (rule UQD_result[OF assms(1) False]) (use key in \<open>simp add: g_def d0_def\<close>)
qed

theorem dt_est_non_increasing_witness:
  "fst (UpdateQuadratureData2D sample_S 4 (sample_state False 1)) = None \<and>
   qd_dt_est (quad_data (sample_state False 1)) = 1 \<and>
   qd_dt_est (quad_data (snd (UpdateQuadratureData2D sample_S 4 (sample_state False 1)))) \<le> 1"
proof -
  have c: "UpdateQuadratureData2D sample_S 4 (sample_state False 1) =
      (None, snd (UpdateQuadratureData2D sample_S 4 (sample_state False 1)))"
    using sample_run[of 1] by (simp add: prod_eq_iff)
  have g: "qd_dt_est (quad_data (sample_state False 1)) = 1"
    by (simp add: sample_state_def)
  have ne: "d_dt_est (qupdate (sample_state False 1)) \<noteq> []"
    by (simp add: sample_state_def sample_qupdate_def)
  have f: "fst (UpdateQuadratureData2D sample_S 4 (sample_state False 1)) = None"
    using sample_run[of 1] by simp
  have "qd_dt_est (quad_data (snd (UpdateQuadratureData2D sample_S 4 (sample_state False 1)))) \<le> 1"
    using dt_est_non_increasing[OF c _ ne] g by simp
  then show ?thesis
    using f g by blast
qed

text \<open>The claim as stated fails from a negative estimate. On the sample run, whose zone is
  inverted at every point, the call started with the global estimate -1 completes, every
  slot is forced to 0, and the new global estimate is 0, which is larger.\<close>

theorem dt_est_non_increasing_counterexample:
  "fst (UpdateQuadratureData2D sample_S 4 (sample_state False (- 1))) = None \<and>
   qd_dt_est (quad_data (sample_state False (- 1))) = - 1 \<and>
   qd_dt_est (quad_data (snd (UpdateQuadratureData2D sample_S 4 (sample_state False (- 1))))) = 0"
  using sample_run[of "- 1"] by (simp add: sample_state_def)

section \<open>The staleness flag\<close>

lemma UQD_current: "quad_data_is_current s \<Longrightarrow> UpdateQuadratureData2D S nqp1D s = (None, s)"
  by (simp add: UpdateQuadratureData2D_def)

lemma UQD_completed:
  assumes "UpdateQuadratureData2D S nqp1D s = (None, s')"
  shows "quad_data_is_current s'"
  using assms
  by (auto simp: UpdateQuadratureData2D_def Let_def split: if_splits prod.splits option.splits)

text \<open>C3. If the flag says that the quadrature data is current, the update returns at once
  and the whole state (the flag, \<open>dt_est\<close>, \<open>stressJinvT\<close>, the scratch vectors, the
  timer, the printed output) is as it was. A call that completes leaves the flag set, so
  a second call right after it, with any state vector, returns the state of the first
  unchanged.\<close>

theorem UpdateQuadratureData2D_current_is_noop:
  "(quad_data_is_current s \<longrightarrow> UpdateQuadratureData2D S nqp1D s = (None, s)) \<and>
   (UpdateQuadratureData2D S nqp1D s = (None, s') \<longrightarrow>
      quad_data_is_current s' \<and> UpdateQuadratureData2D S' nqp1D' s' = (None, s'))"
  using UQD_current UQD_completed by blast

theorem UpdateQuadratureData2D_current_is_noop_witness:
  "fst (UpdateQuadratureData2D sample_S 4 (sample_state False 1)) = None \<and>
   UpdateQuadratureData2D sample_S 4
     (snd (UpdateQuadratureData2D sample_S 4 (sample_state False 1))) =
     (None, snd (UpdateQuadratureData2D sample_S 4 (sample_state False 1))) \<and>
   UpdateQuadratureData2D sample_S 4 (sample_state True 1) = (None, sample_state True 1)"
proof -
  have c: "UpdateQuadratureData2D sample_S 4 (sample_state False 1) =
      (None, snd (UpdateQuadratureData2D sample_S 4 (sample_state False 1)))"
    using sample_run[of 1] by (simp add: prod_eq_iff)
  have t: "quad_data_is_current (sample_state True 1)"
    by (simp add: sample_state_def)
  have f: "fst (UpdateQuadratureData2D sample_S 4 (sample_state False 1)) = None"
    using sample_run[of 1] by simp
  have second: "UpdateQuadratureData2D sample_S 4
     (snd (UpdateQuadratureData2D sample_S 4 (sample_state False 1))) =
     (None, snd (UpdateQuadratureData2D sample_S 4 (sample_state False 1)))"
    using UpdateQuadratureData2D_current_is_noop[of "sample_state False 1" sample_S 4
        "snd (UpdateQuadratureData2D sample_S 4 (sample_state False 1))" sample_S 4] c
    by blast
  have third: "UpdateQuadratureData2D sample_S 4 (sample_state True 1) = (None, sample_state True 1)"
    using UpdateQuadratureData2D_current_is_noop[of "sample_state True 1" sample_S 4] t
    by blast
  show ?thesis
    using f second third by blast
qed

section \<open>Unregistered dispatch keys\<close>














end
